theory Spec2Isabelle
  imports Complex_Main "HOL-Library.Word" "HOL-Library.Multiset"
begin

section \<open>JavaScript numbers\<close>

text \<open>
  Every number of \<^verbatim>\<open>cli.ts\<close> is an IEEE 754 binary64 value. The special values
  decide control flow in the program (\<^verbatim>\<open>Number.isFinite\<close>, \<^verbatim>\<open>Math.max(1, NaN)\<close>,
  division by a zero), so they are constructors of their own; a finite value other than
  negative zero is \<open>Fin x\<close>, with \<open>Fin 0\<close> the positive zero.
\<close>

datatype jsnum = Fin real | NegZero | PosInf | NegInf | NaN

text \<open>
  Round to nearest, ties to even, with the 53-bit significand of binary64: \<open>binade\<close> is the
  exponent of the value (held at \<open>-1022\<close> for subnormal values), \<open>quantum\<close> the distance
  of two neighbouring doubles there.
\<close>

definition round_even :: "real \<Rightarrow> int" where
  "round_even r =
     (let f = \<lfloor>r\<rfloor>; d = r - of_int f
      in if d < 1 / 2 then f
         else if 1 / 2 < d then f + 1
         else if even f then f else f + 1)"

definition binade :: "real \<Rightarrow> int" where
  "binade x = max \<lfloor>log 2 \<bar>x\<bar>\<rfloor> (- 1022)"

definition quantum :: "real \<Rightarrow> real" where
  "quantum x = 2 powi (binade x - 52)"

definition rd :: "real \<Rightarrow> real" where
  "rd x = (if x = 0 then 0 else of_int (round_even (x / quantum x)) * quantum x)"

definition signed_zero :: "bool \<Rightarrow> jsnum" where
  "signed_zero negative = (if negative then NegZero else Fin 0)"

definition signed_inf :: "bool \<Rightarrow> jsnum" where
  "signed_inf negative = (if negative then NegInf else PosInf)"

text \<open>
  The result of an arithmetic operation whose exact value is \<open>x\<close> and whose sign is
  \<open>negative\<close>: rounded, then infinite on overflow and a signed zero on underflow.
\<close>

definition finish :: "bool \<Rightarrow> real \<Rightarrow> jsnum" where
  "finish negative x =
     (let r = rd x
      in if 2 ^ 1024 \<le> \<bar>r\<bar> then signed_inf negative
         else if r = 0 then signed_zero negative
         else Fin r)"

fun val :: "jsnum \<Rightarrow> real" where
  "val (Fin x) = x"
| "val _ = 0"

fun is_inf :: "jsnum \<Rightarrow> bool" where
  "is_inf PosInf = True"
| "is_inf NegInf = True"
| "is_inf _ = False"

fun is_zero :: "jsnum \<Rightarrow> bool" where
  "is_zero (Fin x) = (x = 0)"
| "is_zero NegZero = True"
| "is_zero _ = False"

fun sign_bit :: "jsnum \<Rightarrow> bool" where
  "sign_bit (Fin x) = (x < 0)"
| "sign_bit NegZero = True"
| "sign_bit NegInf = True"
| "sign_bit _ = False"

text \<open>\<^verbatim>\<open>a * b\<close> and \<^verbatim>\<open>a / b\<close>.\<close>

definition js_mul :: "jsnum \<Rightarrow> jsnum \<Rightarrow> jsnum" where
  "js_mul a b =
     (if a = NaN \<or> b = NaN then NaN
      else if (is_inf a \<and> is_zero b) \<or> (is_zero a \<and> is_inf b) then NaN
      else if is_inf a \<or> is_inf b then signed_inf (sign_bit a \<noteq> sign_bit b)
      else finish (sign_bit a \<noteq> sign_bit b) (val a * val b))"

definition js_div :: "jsnum \<Rightarrow> jsnum \<Rightarrow> jsnum" where
  "js_div a b =
     (if a = NaN \<or> b = NaN then NaN
      else if (is_inf a \<and> is_inf b) \<or> (is_zero a \<and> is_zero b) then NaN
      else if is_inf a \<or> is_zero b then signed_inf (sign_bit a \<noteq> sign_bit b)
      else if is_inf b then signed_zero (sign_bit a \<noteq> sign_bit b)
      else finish (sign_bit a \<noteq> sign_bit b) (val a / val b))"

text \<open>\<^verbatim>\<open>Math.floor\<close>: exact, and the identity on the zeros, the infinities and NaN.\<close>

fun js_floor :: "jsnum \<Rightarrow> jsnum" where
  "js_floor (Fin x) = Fin (of_int \<lfloor>x\<rfloor>)"
| "js_floor a = a"

text \<open>\<^verbatim>\<open>a < b\<close>: false whenever an operand is NaN; the two zeros are equal.\<close>

fun js_lt :: "jsnum \<Rightarrow> jsnum \<Rightarrow> bool" where
  "js_lt NaN _ = False"
| "js_lt _ NaN = False"
| "js_lt PosInf _ = False"
| "js_lt _ NegInf = False"
| "js_lt NegInf _ = True"
| "js_lt _ PosInf = True"
| "js_lt a b = (val a < val b)"

definition js_gt :: "jsnum \<Rightarrow> jsnum \<Rightarrow> bool" where
  "js_gt a b = js_lt b a"

definition js_ge :: "jsnum \<Rightarrow> jsnum \<Rightarrow> bool" where
  "js_ge a b = (a \<noteq> NaN \<and> b \<noteq> NaN \<and> \<not> js_lt a b)"

text \<open>\<^verbatim>\<open>a === b\<close> on numbers.\<close>

definition js_eq :: "jsnum \<Rightarrow> jsnum \<Rightarrow> bool" where
  "js_eq a b = (a \<noteq> NaN \<and> b \<noteq> NaN \<and> \<not> js_lt a b \<and> \<not> js_lt b a)"

text \<open>\<^verbatim>\<open>Math.min\<close> and \<^verbatim>\<open>Math.max\<close>: NaN if an argument is NaN; \<open>-0\<close> is below \<open>+0\<close>.\<close>

definition js_min :: "jsnum \<Rightarrow> jsnum \<Rightarrow> jsnum" where
  "js_min a b =
     (if a = NaN \<or> b = NaN then NaN
      else if js_lt a b then a
      else if js_lt b a then b
      else if a = NegZero then a else b)"

definition js_max :: "jsnum \<Rightarrow> jsnum \<Rightarrow> jsnum" where
  "js_max a b =
     (if a = NaN \<or> b = NaN then NaN
      else if js_lt a b then b
      else if js_lt b a then a
      else if a = NegZero then b else a)"

text \<open>\<^verbatim>\<open>Number.isFinite\<close>.\<close>

fun isFinite :: "jsnum \<Rightarrow> bool" where
  "isFinite (Fin x) = True"
| "isFinite NegZero = True"
| "isFinite _ = False"

text \<open>
  \<^verbatim>\<open>String(n)\<close> and \<^verbatim>\<open>`${n}`\<close>. An integer below \<open>10^21\<close> prints as its decimal digits;
  the shortest-round-trip digits of any other finite value come from the runtime and are
  the parameter \<open>other\<close>.
\<close>

fun digits :: "nat \<Rightarrow> string" where
  "digits n =
     (if n < 10 then [char_of (48 + n)]
      else digits (n div 10) @ [char_of (48 + n mod 10)])"

declare digits.simps [simp del]

definition numberToString :: "(real \<Rightarrow> string) \<Rightarrow> jsnum \<Rightarrow> string" where
  "numberToString other a =
     (case a of
        NaN \<Rightarrow> ''NaN''
      | PosInf \<Rightarrow> ''Infinity''
      | NegInf \<Rightarrow> ''-Infinity''
      | NegZero \<Rightarrow> ''0''
      | Fin x \<Rightarrow>
          if x = of_int \<lfloor>x\<rfloor> \<and> \<bar>x\<bar> < 10 ^ 21
          then (if x < 0 then ''-'' else '''') @ digits (nat \<bar>\<lfloor>x\<rfloor>\<bar>)
          else other x)"

section \<open>Sizes: \<^verbatim>\<open>parseSize\<close>, \<^verbatim>\<open>computeEffectiveScale\<close>, \<^verbatim>\<open>computeLogicalSize\<close>\<close>

record RequestedImageSize =
  width :: jsnum
  height :: jsnum

text \<open>\<^verbatim>\<open>s.split("x")\<close>: every piece between two separators, the empty ones too.\<close>

fun split_on :: "char \<Rightarrow> string \<Rightarrow> string list" where
  "split_on c [] = [[]]"
| "split_on c (d # ds) =
     (if d = c then [] # split_on c ds
      else (case split_on c ds of
              [] \<Rightarrow> [[d]]
            | p # ps \<Rightarrow> (d # p) # ps))"

text \<open>An element of an array that may be missing: \<^verbatim>\<open>undefined\<close> is \<open>None\<close>.\<close>

definition element :: "'a list \<Rightarrow> nat \<Rightarrow> 'a option" where
  "element xs i = (if i < length xs then Some (xs ! i) else None)"

text \<open>
  \<^verbatim>\<open>Number(v)\<close> for \<^verbatim>\<open>v: string | undefined\<close>: \<^verbatim>\<open>undefined\<close> converts to NaN, a string
  by the runtime's numeric-literal grammar, the parameter \<open>strToNum\<close>.
\<close>

definition toNumber :: "(string \<Rightarrow> jsnum) \<Rightarrow> string option \<Rightarrow> jsnum" where
  "toNumber strToNum v = (case v of None \<Rightarrow> NaN | Some s \<Rightarrow> strToNum s)"

definition parseSize ::
  "(string \<Rightarrow> jsnum) \<Rightarrow> string option \<Rightarrow> RequestedImageSize \<Rightarrow> RequestedImageSize" where
  "parseSize strToNum input fallback =
     (case input of
        None \<Rightarrow> fallback
      | Some s \<Rightarrow>
          if s = [] then fallback
          else
            (let parts = split_on CHR ''x'' s;
                 w = element parts 0;
                 h = element parts 1;
                 width = toNumber strToNum w;
                 height = toNumber strToNum h
             in if \<not> isFinite width \<or> \<not> isFinite height then fallback
                else \<lparr>width = width, height = height\<rparr>))"

definition computeEffectiveScale :: "RequestedImageSize \<Rightarrow> jsnum option \<Rightarrow> jsnum" where
  "computeEffectiveScale requested scaleArg =
     (let bySize =
            (if js_gt (width requested) (Fin 640) \<or> js_gt (height requested) (Fin 640)
             then Fin 2 else Fin 1);
          candidate =
            (case scaleArg of
               None \<Rightarrow> bySize
             | Some s \<Rightarrow> if isFinite s then s else bySize)
      in if js_eq candidate (Fin 1) then Fin 1 else Fin 2)"

definition computeLogicalSize ::
  "RequestedImageSize \<Rightarrow> jsnum \<Rightarrow> jsnum \<Rightarrow> RequestedImageSize" where
  "computeLogicalSize requested scale cap =
     (let logicalWidth = js_floor (js_div (width requested) scale);
          logicalHeight = js_floor (js_div (height requested) scale);
          capped =
            (if js_gt logicalWidth cap \<or> js_gt logicalHeight cap
             then
               (let ratio = js_min (js_div cap logicalWidth) (js_div cap logicalHeight)
                in (js_floor (js_mul logicalWidth ratio), js_floor (js_mul logicalHeight ratio)))
             else (logicalWidth, logicalHeight))
      in \<lparr>width = js_max (Fin 1) (fst capped), height = js_max (Fin 1) (snd capped)\<rparr>)"

section \<open>The visiting order: \<^verbatim>\<open>shuffleIndices\<close>\<close>

text \<open>
  A JavaScript array of numbers is a list whose elements may be \<^verbatim>\<open>undefined\<close>. Reading
  past the end gives \<^verbatim>\<open>undefined\<close>; writing past the end extends the array, the
  elements in between left \<^verbatim>\<open>undefined\<close>.
\<close>

definition arr_get :: "nat option list \<Rightarrow> nat \<Rightarrow> nat option" where
  "arr_get xs i = (if i < length xs then xs ! i else None)"

definition arr_set :: "nat option list \<Rightarrow> nat \<Rightarrow> nat option \<Rightarrow> nat option list" where
  "arr_set xs i v =
     (if i < length xs then xs[i := v]
      else xs @ replicate (i - length xs) None @ [v])"

text \<open>
  The array index a number denotes as a property key, if it denotes one: a non-negative
  integer (negative zero is the key \<^verbatim>\<open>"0"\<close>). Any other number names a property that is
  not an element of the array.
\<close>

fun arrayIndex :: "jsnum \<Rightarrow> nat option" where
  "arrayIndex (Fin x) = (if 0 \<le> x \<and> x = of_int \<lfloor>x\<rfloor> then Some (nat \<lfloor>x\<rfloor>) else None)"
| "arrayIndex NegZero = Some 0"
| "arrayIndex _ = None"

text \<open>
  The loop \<^verbatim>\<open>for (let i = indices.length - 1; i > 0; i--)\<close>. \<open>random k\<close> is what the
  \<open>k\<close>-th call of \<^verbatim>\<open>Math.random()\<close> of the run returns, by its contract a double that
  is at least \<open>0\<close> and below \<open>1\<close>. With a key that is no array index, the read gives
  \<^verbatim>\<open>undefined\<close> and the write leaves the elements as they are.
\<close>

fun shuffleLoop :: "(nat \<Rightarrow> real) \<Rightarrow> nat \<Rightarrow> nat \<Rightarrow> nat option list \<Rightarrow> nat option list" where
  "shuffleLoop random k 0 indices = indices"
| "shuffleLoop random k (Suc i') indices =
     (let i = Suc i';
          j = js_floor (js_mul (Fin (random k)) (Fin (real (i + 1))));
          tmp = arr_get indices i
      in case arrayIndex j of
           None \<Rightarrow> shuffleLoop random (Suc k) i' (arr_set indices i None)
         | Some jn \<Rightarrow>
             shuffleLoop random (Suc k) i' (arr_set (arr_set indices i (arr_get indices jn)) jn tmp))"

definition shuffleIndices :: "(nat \<Rightarrow> real) \<Rightarrow> nat \<Rightarrow> nat option list" where
  "shuffleIndices random len =
     (let indices = map Some [0..<len]
      in shuffleLoop random 0 (length indices - 1) indices)"

section \<open>Coordinates and output names\<close>

record Coordinates =
  lat :: jsnum
  lng :: jsnum
  heading :: "jsnum option"
  pitch :: "jsnum option"
  fov :: "jsnum option"
  csize :: "string option"

text \<open>
  \<^verbatim>\<open>Date.now()\<close> is the argument \<open>now\<close>, in milliseconds. The prefix is falsy when it is
  \<^verbatim>\<open>null\<close> or the empty string.
\<close>

definition buildBaseName ::
  "(real \<Rightarrow> string) \<Rightarrow> nat \<Rightarrow> string option \<Rightarrow> Coordinates \<Rightarrow> jsnum \<Rightarrow> string" where
  "buildBaseName other now prefix coords index =
     (let stamped =
            numberToString other (lat coords) @ ''_'' @ numberToString other (lng coords)
            @ ''_'' @ numberToString other (Fin (real now))
      in case prefix of
           None \<Rightarrow> stamped
         | Some p \<Rightarrow> if p \<noteq> [] then p @ ''_'' @ numberToString other index else stamped)"

text \<open>\<^verbatim>\<open>resolveAngle\<close>: the value is a number already, so \<^verbatim>\<open>Number(value)\<close> is the value.\<close>

definition resolveAngle :: "jsnum option \<Rightarrow> jsnum \<Rightarrow> jsnum" where
  "resolveAngle v fallback = (case v of Some x \<Rightarrow> x | None \<Rightarrow> fallback)"

section \<open>Effects\<close>

text \<open>
  How a call ends: it returns a value, it throws (the promise is rejected) with a message,
  or \<^verbatim>\<open>exitWithError\<close> ends the process with \<^verbatim>\<open>process.exit(1)\<close>. No
  \<^verbatim>\<open>catch\<close> block sees an exit.
\<close>

datatype 'a outcome = Ok 'a | Throw string | Exit string

type_synonym Buffer = "8 word list"

text \<open>
  A request URL: the base and the pairs that \<^verbatim>\<open>URLSearchParams\<close> serialises, in their
  order.
\<close>

datatype url = Url string "(string \<times> string) list"

record Metadata =
  status :: "string option"
  error_message :: "string option"

text \<open>What the headless browser is asked to do, step by step, in one capture.\<close>

datatype event =
    Launch
  | NewPage
  | SetViewport jsnum jsnum
  | Goto url
  | Query string
  | Click string
  | QueryAll string
  | TextOf nat
  | ClickButton nat
  | Sleep nat
  | WaitForSelector string
  | Screenshot
  | Close

text \<open>
  What is observable of a run: the requests sent with \<^verbatim>\<open>https.get\<close>, the lines written
  to the two streams, the files written, the steps of the browser, and the indices of the
  candidates whose capture was started, each list in order of time.
\<close>

record world =
  requests :: "url list"
  stderr :: "string list"
  stdout :: "string list"
  files :: "(string \<times> Buffer) list"
  browser :: "event list"
  visited :: "nat list"

definition world0 :: world where
  "world0 = \<lparr>requests = [], stderr = [], stdout = [], files = [], browser = [], visited = []\<rparr>"

text \<open>
  A page of the browser: how each step answers. An error is the message of the rejection,
  \<open>None\<close> is success. \<open>query\<close> answers \<^verbatim>\<open>page.$(selector)\<close>: rejected, no such element,
  or an element and whether its click succeeds. \<open>buttons\<close> answers \<^verbatim>\<open>page.$$("button")\<close>:
  for each button its text (\<open>None\<close> when reading it is rejected) and whether its click
  succeeds. A rejected \<^verbatim>\<open>waitForSelector\<close> is caught and changes nothing, so the page
  has no answer for it.
\<close>

datatype found = Rejected | Missing | Element bool

record Page =
  launchError :: "string option"
  newPageError :: "string option"
  setViewportError :: "string option"
  gotoError :: "string option"
  query :: "string \<Rightarrow> found"
  buttons :: "(string option \<times> bool) list option"
  screenshot :: "string + Buffer"
  closeError :: "string option"

text \<open>
  Everything outside the program: the runtime's conversions, the random source, the
  network, the JSON parser, the image library, the browser, the file system and the clock.
  An answer depends on the request alone.
\<close>

record env =
  strToNum :: "string \<Rightarrow> jsnum"
  fmtOther :: "real \<Rightarrow> string"
  mathRandom :: "nat \<Rightarrow> real"
  httpsGet :: "url \<Rightarrow> string + Buffer"
  jsonParse :: "Buffer \<Rightarrow> Metadata option"
  sharpImport :: bool
  sharpResize :: "Buffer \<Rightarrow> jsnum \<Rightarrow> jsnum \<Rightarrow> string \<Rightarrow> string + Buffer"
  chrome :: "url \<Rightarrow> Page"
  writeFile :: "string \<Rightarrow> Buffer \<Rightarrow> string option"
  mkdirError :: "string option"
  dateNow :: "nat \<Rightarrow> nat"
  pathResolve :: "string \<Rightarrow> string \<Rightarrow> string"

definition exitWithError :: "string \<Rightarrow> world \<Rightarrow> 'a outcome \<times> world" where
  "exitWithError message w = (Exit message, w\<lparr>stderr := stderr w @ [message]\<rparr>)"

definition httpGet :: "env \<Rightarrow> url \<Rightarrow> world \<Rightarrow> Buffer outcome \<times> world" where
  "httpGet e u w =
     (let w1 = w\<lparr>requests := requests w @ [u]\<rparr>
      in case httpsGet e u of
           Inl message \<Rightarrow> (Throw message, w1)
         | Inr body \<Rightarrow> (Ok body, w1))"

section \<open>The API capture: \<^verbatim>\<open>createImageWithApi\<close>\<close>

record StreetViewParams =
  p_key :: string
  p_radius :: "jsnum option"
  p_source :: "string option"
  p_size :: "string option"
  p_scale :: "jsnum option"
  p_heading :: "jsnum option"
  p_pitch :: "jsnum option"
  p_fov :: "jsnum option"

text \<open>\<^verbatim>\<open>a ?? b\<close> on numbers and \<^verbatim>\<open>a || b\<close> on strings.\<close>

definition orNumber :: "jsnum option \<Rightarrow> jsnum \<Rightarrow> jsnum" where
  "orNumber a b = (case a of None \<Rightarrow> b | Some x \<Rightarrow> x)"

definition orString :: "string option \<Rightarrow> string \<Rightarrow> string" where
  "orString a b = (case a of None \<Rightarrow> b | Some s \<Rightarrow> if s = [] then b else s)"

definition location :: "(real \<Rightarrow> string) \<Rightarrow> jsnum \<Rightarrow> jsnum \<Rightarrow> string" where
  "location other la lo = numberToString other la @ '','' @ numberToString other lo"

definition buildMetadataUrl ::
  "(real \<Rightarrow> string) \<Rightarrow> jsnum \<Rightarrow> jsnum \<Rightarrow> StreetViewParams \<Rightarrow> url" where
  "buildMetadataUrl other la lo params =
     Url ''https://maps.googleapis.com/maps/api/streetview/metadata''
       [(''location'', location other la lo),
        (''key'', p_key params),
        (''radius'', numberToString other (orNumber (p_radius params) (Fin 100))),
        (''source'', orString (p_source params) ''outdoor'')]"

definition buildImageUrl ::
  "(real \<Rightarrow> string) \<Rightarrow> jsnum \<Rightarrow> jsnum \<Rightarrow> StreetViewParams \<Rightarrow> url" where
  "buildImageUrl other la lo params =
     Url ''https://maps.googleapis.com/maps/api/streetview''
       [(''location'', location other la lo),
        (''key'', p_key params),
        (''size'', orString (p_size params) ''1280x720''),
        (''scale'', numberToString other (orNumber (p_scale params) (Fin 2))),
        (''fov'', numberToString other (orNumber (p_fov params) (Fin 90))),
        (''pitch'', numberToString other (orNumber (p_pitch params) (Fin 0))),
        (''heading'', numberToString other (orNumber (p_heading params) (Fin 0))),
        (''radius'', numberToString other (orNumber (p_radius params) (Fin 100))),
        (''source'', orString (p_source params) ''outdoor'')]"

definition unavailableMessage :: "Metadata \<Rightarrow> string" where
  "unavailableMessage data =
     ''No Street View available: ''
     @ (case status data of None \<Rightarrow> ''UNKNOWN'' | Some s \<Rightarrow> s)
     @ (case error_message data of
          None \<Rightarrow> []
        | Some m \<Rightarrow> if m = [] then [] else '' - '' @ m)"

text \<open>
  \<^verbatim>\<open>JSON.parse\<close> throws on a body that is not JSON, and reading \<^verbatim>\<open>data.status\<close> throws
  when the body is \<^verbatim>\<open>null\<close>: both are the answer \<open>None\<close> of \<open>jsonParse\<close>.
\<close>

definition ensureMetadataAvailable ::
  "env \<Rightarrow> jsnum \<Rightarrow> jsnum \<Rightarrow> StreetViewParams \<Rightarrow> world \<Rightarrow> Metadata outcome \<times> world" where
  "ensureMetadataAvailable e la lo params w =
     (let u = buildMetadataUrl (fmtOther e) la lo params
      in case httpGet e u w of
           (Throw message, w1) \<Rightarrow> (Throw message, w1)
         | (Exit message, w1) \<Rightarrow> (Exit message, w1)
         | (Ok buffer, w1) \<Rightarrow>
             (case jsonParse e buffer of
                None \<Rightarrow> (Throw ''Unexpected token in JSON'', w1)
              | Some data \<Rightarrow>
                  if status data \<noteq> Some ''OK'' then exitWithError (unavailableMessage data) w1
                  else (Ok data, w1)))"

definition downloadImage :: "env \<Rightarrow> url \<Rightarrow> world \<Rightarrow> Buffer outcome \<times> world" where
  "downloadImage e u w = httpGet e u w"

definition sharpMissing :: string where
  "sharpMissing =
     ''Image processing requires '' @ [CHR 0x27] @ ''sharp'' @ [CHR 0x27]
     @ ''. Ensure it'' @ [CHR 0x27] @ ''s installed and compatible with your runtime.''"

definition getSharpOrThrow :: "env \<Rightarrow> world \<Rightarrow> unit outcome \<times> world" where
  "getSharpOrThrow e w = (if sharpImport e then (Ok (), w) else exitWithError sharpMissing w)"

record ApiOptions =
  o_apiKey :: string
  o_requested :: RequestedImageSize
  o_scaleArg :: "jsnum option"
  o_heading :: jsnum
  o_pitch :: jsnum
  o_fov :: jsnum
  o_radius :: jsnum
  o_source :: string
  o_fit :: string
  o_verbose :: bool

definition createImageWithApi ::
  "env \<Rightarrow> Coordinates \<Rightarrow> ApiOptions \<Rightarrow> world \<Rightarrow> Buffer outcome \<times> world" where
  "createImageWithApi e coords options w =
     (case ensureMetadataAvailable e (lat coords) (lng coords)
             \<lparr>p_key = o_apiKey options, p_radius = Some (o_radius options),
              p_source = Some (o_source options), p_size = None, p_scale = None,
              p_heading = None, p_pitch = None, p_fov = None\<rparr> w of
        (Throw message, w1) \<Rightarrow> (Throw message, w1)
      | (Exit message, w1) \<Rightarrow> (Exit message, w1)
      | (Ok data, w1) \<Rightarrow>
          (let effectiveScale = computeEffectiveScale (o_requested options) (o_scaleArg options);
               logical = computeLogicalSize (o_requested options) effectiveScale (Fin 640);
               normalizedSize =
                 numberToString (fmtOther e) (width logical) @ ''x''
                 @ numberToString (fmtOther e) (height logical);
               w2 =
                 (if o_verbose options
                  then w1\<lparr>stdout := stdout w1 @
                         [''coords='' @ location (fmtOther e) (lat coords) (lng coords)
                          @ '' size='' @ normalizedSize
                          @ '' scale='' @ numberToString (fmtOther e) effectiveScale
                          @ '' heading='' @ numberToString (fmtOther e) (o_heading options)]\<rparr>
                  else w1);
               imageUrl =
                 buildImageUrl (fmtOther e) (lat coords) (lng coords)
                   \<lparr>p_key = o_apiKey options, p_radius = Some (o_radius options),
                    p_source = Some (o_source options), p_size = Some normalizedSize,
                    p_scale = Some effectiveScale, p_heading = Some (o_heading options),
                    p_pitch = Some (o_pitch options), p_fov = Some (o_fov options)\<rparr>
           in case downloadImage e imageUrl w2 of
                (Throw message, w3) \<Rightarrow> (Throw message, w3)
              | (Exit message, w3) \<Rightarrow> (Exit message, w3)
              | (Ok raw, w3) \<Rightarrow>
                  if js_gt (width (o_requested options)) (Fin 0)
                     \<and> js_gt (height (o_requested options)) (Fin 0)
                  then
                    (case getSharpOrThrow e w3 of
                       (Throw message, w4) \<Rightarrow> (Throw message, w4)
                     | (Exit message, w4) \<Rightarrow> (Exit message, w4)
                     | (Ok _, w4) \<Rightarrow>
                         (case sharpResize e raw (width (o_requested options))
                                 (height (o_requested options)) (o_fit options) of
                            Inl message \<Rightarrow> (Throw message, w4)
                          | Inr resized \<Rightarrow> (Ok resized, w4)))
                  else (Ok raw, w3)))"

section \<open>The browser capture: \<^verbatim>\<open>captureStreetViewWithBrowser\<close>\<close>

record BrowserParams =
  b_width :: jsnum
  b_height :: jsnum
  b_key :: "string option"
  b_heading :: "jsnum option"
  b_pitch :: "jsnum option"
  b_fov :: "jsnum option"
  useEmbed :: "bool option"

text \<open>The pairs added by \<^verbatim>\<open>search.set\<close> for the angles that are given.\<close>

definition angles :: "(real \<Rightarrow> string) \<Rightarrow> BrowserParams \<Rightarrow> (string \<times> string) list" where
  "angles other params =
     (case b_heading params of None \<Rightarrow> [] | Some x \<Rightarrow> [(''heading'', numberToString other x)])
     @ (case b_pitch params of None \<Rightarrow> [] | Some x \<Rightarrow> [(''pitch'', numberToString other x)])
     @ (case b_fov params of None \<Rightarrow> [] | Some x \<Rightarrow> [(''fov'', numberToString other x)])"

definition buildMapsPanoUrl ::
  "(real \<Rightarrow> string) \<Rightarrow> jsnum \<Rightarrow> jsnum \<Rightarrow> BrowserParams \<Rightarrow> url" where
  "buildMapsPanoUrl other la lo params =
     Url ''https://www.google.com/maps/@''
       ([(''api'', ''1''), (''map_action'', ''pano''), (''viewpoint'', location other la lo)]
        @ angles other params)"

definition buildEmbedStreetViewUrl ::
  "(real \<Rightarrow> string) \<Rightarrow> jsnum \<Rightarrow> jsnum \<Rightarrow> BrowserParams \<Rightarrow> url" where
  "buildEmbedStreetViewUrl other la lo params =
     Url ''https://www.google.com/maps/embed/v1/streetview''
       ([(''key'', (case b_key params of None \<Rightarrow> [] | Some k \<Rightarrow> k)),
         (''location'', location other la lo)]
        @ angles other params)"

text \<open>
  \<^verbatim>\<open>/accept|aceitar|agree/i.test(txt)\<close>: one of the three words occurs in the text,
  whatever the case of its ASCII letters.
\<close>

definition lowerAscii :: "char \<Rightarrow> char" where
  "lowerAscii c =
     (let n = (of_char c :: nat) in if 65 \<le> n \<and> n \<le> 90 then char_of (n + 32) else c)"

fun startsWith :: "string \<Rightarrow> string \<Rightarrow> bool" where
  "startsWith [] cs = True"
| "startsWith (p # ps) [] = False"
| "startsWith (p # ps) (c # cs) = (p = c \<and> startsWith ps cs)"

fun containsWord :: "string \<Rightarrow> string \<Rightarrow> bool" where
  "containsWord p [] = (p = [])"
| "containsWord p (c # cs) = (startsWith p (c # cs) \<or> containsWord p cs)"

definition consentText :: "string \<Rightarrow> bool" where
  "consentText txt =
     (let t = map lowerAscii txt
      in containsWord ''accept'' t \<or> containsWord ''aceitar'' t \<or> containsWord ''agree'' t)"

definition candidates :: "string list" where
  "candidates =
     [''button[aria-label=\"Accept all\"]'',
      ''button[aria-label=\"Aceitar tudo\"]'',
      ''button:has-text(\"Aceitar tudo\")'',
      ''button:has-text(\"I agree\")'',
      ''button:has-text(\"Agree\")'',
      ''button:has-text(\"Aceitar\")'']"

text \<open>
  The first loop of \<^verbatim>\<open>tryClickConsent\<close>: each probe in its own \<^verbatim>\<open>try\<close>, so a rejected
  query or click goes on to the next selector. The result says whether the function has
  returned (a click succeeded).
\<close>

fun probeSelectors :: "Page \<Rightarrow> string list \<Rightarrow> event list \<Rightarrow> bool \<times> event list" where
  "probeSelectors page [] evs = (False, evs)"
| "probeSelectors page (sel # sels) evs =
     (case query page sel of
        Rejected \<Rightarrow> probeSelectors page sels (evs @ [Query sel])
      | Missing \<Rightarrow> probeSelectors page sels (evs @ [Query sel])
      | Element clicks \<Rightarrow>
          if clicks then (True, evs @ [Query sel, Click sel, Sleep 500])
          else probeSelectors page sels (evs @ [Query sel, Click sel]))"

text \<open>
  The second loop, inside one \<^verbatim>\<open>try\<close>: the first rejection ends it, and so does the
  first click that succeeds.
\<close>

fun probeButtons :: "(string option \<times> bool) list \<Rightarrow> nat \<Rightarrow> event list \<Rightarrow> event list" where
  "probeButtons [] n evs = evs"
| "probeButtons ((None, clicks) # bs) n evs = evs @ [TextOf n]"
| "probeButtons ((Some txt, clicks) # bs) n evs =
     (if consentText txt
      then (if clicks then evs @ [TextOf n, ClickButton n, Sleep 500]
            else evs @ [TextOf n, ClickButton n])
      else probeButtons bs (Suc n) (evs @ [TextOf n]))"

definition tryClickConsent :: "Page \<Rightarrow> event list \<Rightarrow> event list" where
  "tryClickConsent page evs =
     (case probeSelectors page candidates evs of
        (True, evs1) \<Rightarrow> evs1
      | (False, evs1) \<Rightarrow>
          (case buttons page of
             None \<Rightarrow> evs1 @ [QueryAll ''button'']
           | Some bs \<Rightarrow> probeButtons bs 0 (evs1 @ [QueryAll ''button''])))"

text \<open>\<open>useEmbed\<close> and \<open>key\<close> in a condition.\<close>

definition embedOn :: "BrowserParams \<Rightarrow> bool" where
  "embedOn params = (useEmbed params = Some True)"

definition keyGiven :: "BrowserParams \<Rightarrow> bool" where
  "keyGiven params = (case b_key params of None \<Rightarrow> False | Some k \<Rightarrow> k \<noteq> [])"

text \<open>The \<^verbatim>\<open>try\<close> block of the capture, from \<^verbatim>\<open>browser.newPage()\<close> to the screenshot.\<close>

definition captureSteps ::
  "Page \<Rightarrow> url \<Rightarrow> BrowserParams \<Rightarrow> event list \<Rightarrow> Buffer outcome \<times> event list" where
  "captureSteps page u params evs =
     (case newPageError page of
        Some m \<Rightarrow> (Throw m, evs @ [NewPage])
      | None \<Rightarrow>
          (case setViewportError page of
             Some m \<Rightarrow> (Throw m, evs @ [NewPage, SetViewport (b_width params) (b_height params)])
           | None \<Rightarrow>
               (let evs1 = evs @ [NewPage, SetViewport (b_width params) (b_height params), Goto u]
                in case gotoError page of
                     Some m \<Rightarrow> (Throw m, evs1)
                   | None \<Rightarrow>
                       (let evs2 =
                              (if \<not> embedOn params
                               then tryClickConsent page evs1 @ [Sleep 1500, WaitForSelector ''canvas'']
                               else evs1 @ [Sleep 1500])
                        in case screenshot page of
                             Inl m \<Rightarrow> (Throw m, evs2 @ [Screenshot])
                           | Inr buffer \<Rightarrow> (Ok buffer, evs2 @ [Screenshot])))))"

text \<open>
  \<^verbatim>\<open>puppeteer.launch\<close> is before the \<^verbatim>\<open>try\<close>: when it is rejected nothing is closed.
  After it, \<^verbatim>\<open>finally\<close> closes the browser however the block ended, and a rejected
  \<^verbatim>\<open>close\<close> replaces the block's result.
\<close>

definition captureStreetViewWithBrowser ::
  "env \<Rightarrow> jsnum \<Rightarrow> jsnum \<Rightarrow> BrowserParams \<Rightarrow> world \<Rightarrow> Buffer outcome \<times> world" where
  "captureStreetViewWithBrowser e la lo params w =
     (let u = (if embedOn params \<and> keyGiven params
               then buildEmbedStreetViewUrl (fmtOther e) la lo params
               else buildMapsPanoUrl (fmtOther e) la lo params);
          page = chrome e u
      in case launchError page of
           Some m \<Rightarrow> (Throw m, w\<lparr>browser := browser w @ [Launch]\<rparr>)
         | None \<Rightarrow>
             (case captureSteps page u params (browser w @ [Launch]) of
                (result, evs) \<Rightarrow>
                  (case closeError page of
                     Some m \<Rightarrow> (Throw m, w\<lparr>browser := evs @ [Close]\<rparr>)
                   | None \<Rightarrow> (result, w\<lparr>browser := evs @ [Close]\<rparr>))))"

section \<open>The sampling loop of \<^verbatim>\<open>main\<close>\<close>

text \<open>The constants \<^verbatim>\<open>main\<close> has resolved from the command line before the loop starts.\<close>

record Settings =
  opt_apiKey :: string
  opt_count :: jsnum
  opt_size :: string
  opt_scale :: jsnum
  opt_verbose :: bool
  opt_heading :: jsnum
  opt_pitch :: jsnum
  opt_fov :: jsnum
  opt_radius :: jsnum
  opt_source :: string
  opt_outputDir :: string
  opt_namePrefix :: "string option"
  opt_fit :: string
  opt_mode :: "string option"

text \<open>\<^verbatim>\<open>parseSize(coords.size || size, { width: 1920, height: 1080 })\<close>.\<close>

definition requestedSize :: "env \<Rightarrow> Settings \<Rightarrow> Coordinates \<Rightarrow> RequestedImageSize" where
  "requestedSize e cfg coords =
     parseSize (strToNum e) (Some (orString (csize coords) (opt_size cfg)))
       \<lparr>width = Fin 1920, height = Fin 1080\<rparr>"

text \<open>The \<^verbatim>\<open>try\<close> block of the loop up to the image: one of the two captures.\<close>

definition captureImage ::
  "env \<Rightarrow> Settings \<Rightarrow> Coordinates \<Rightarrow> RequestedImageSize \<Rightarrow> world \<Rightarrow> Buffer outcome \<times> world" where
  "captureImage e cfg coords requested w =
     (let headingValue = resolveAngle (heading coords) (opt_heading cfg);
          pitchValue = resolveAngle (pitch coords) (opt_pitch cfg);
          fovValue = resolveAngle (fov coords) (opt_fov cfg)
      in if opt_mode cfg = Some ''browser''
         then captureStreetViewWithBrowser e (lat coords) (lng coords)
                \<lparr>b_width = width requested, b_height = height requested,
                 b_key = Some (opt_apiKey cfg), b_heading = Some headingValue,
                 b_pitch = Some pitchValue, b_fov = Some fovValue, useEmbed = Some True\<rparr> w
         else createImageWithApi e coords
                \<lparr>o_apiKey = opt_apiKey cfg, o_requested = requested,
                 o_scaleArg = (if isFinite (opt_scale cfg) then Some (opt_scale cfg) else None),
                 o_heading = headingValue, o_pitch = pitchValue, o_fov = fovValue,
                 o_radius = opt_radius cfg, o_source = opt_source cfg, o_fit = opt_fit cfg,
                 o_verbose = opt_verbose cfg\<rparr> w)"

text \<open>The \<^verbatim>\<open>catch\<close> block of the loop.\<close>

definition skipIndex :: "env \<Rightarrow> Settings \<Rightarrow> nat \<Rightarrow> string \<Rightarrow> world \<Rightarrow> world" where
  "skipIndex e cfg idx message w =
     (if opt_verbose cfg
      then w\<lparr>stderr := stderr w @
               [''Skipping index '' @ numberToString (fmtOther e) (Fin (real idx)) @ '': ''
                @ (if message = [] then ''Error'' else message)]\<rparr>
      else w)"

text \<open>
  \<^verbatim>\<open>resolve(outputDir, `${baseName}.jpg`)\<close> for the image captured after \<open>successes\<close>
  successes; \<open>dateNow e k\<close> is the clock when the image after \<open>k\<close> successes is named.
\<close>

definition outputPathFor :: "env \<Rightarrow> Settings \<Rightarrow> Coordinates \<Rightarrow> nat \<Rightarrow> string" where
  "outputPathFor e cfg coords successes =
     (let baseName =
            buildBaseName (fmtOther e) (dateNow e successes) (opt_namePrefix cfg)
              coords (Fin (real (successes + 1)))
      in pathResolve e (opt_outputDir cfg) (baseName @ ''.jpg''))"

text \<open>
  \<^verbatim>\<open>for (const idx of indices)\<close>, with the counter \<open>successes\<close> and the list \<open>outputs\<close>.
  \<open>visited\<close> records the index of every candidate whose \<^verbatim>\<open>try\<close> block is entered.
\<close>

fun sampleLoop ::
  "env \<Rightarrow> Settings \<Rightarrow> Coordinates list \<Rightarrow> nat option list \<Rightarrow> nat \<Rightarrow> string list \<Rightarrow> world
   \<Rightarrow> (nat \<times> string list) outcome \<times> world" where
  "sampleLoop e cfg allCoords [] successes outputs w = (Ok (successes, outputs), w)"
| "sampleLoop e cfg allCoords (idx # rest) successes outputs w =
     (if js_ge (Fin (real successes)) (opt_count cfg) then (Ok (successes, outputs), w)
      else
        (case (case idx of None \<Rightarrow> None | Some i \<Rightarrow> element allCoords i) of
           None \<Rightarrow> sampleLoop e cfg allCoords rest successes outputs w
         | Some coords \<Rightarrow>
             (let i = (case idx of None \<Rightarrow> 0 | Some i \<Rightarrow> i);
                  requested = requestedSize e cfg coords
              in case captureImage e cfg coords requested (w\<lparr>visited := visited w @ [i]\<rparr>) of
                   (Exit message, w1) \<Rightarrow> (Exit message, w1)
                 | (Throw message, w1) \<Rightarrow>
                     sampleLoop e cfg allCoords rest successes outputs (skipIndex e cfg i message w1)
                 | (Ok img, w1) \<Rightarrow>
                     (let outputPath = outputPathFor e cfg coords successes
                      in case writeFile e outputPath img of
                           Some message \<Rightarrow>
                             sampleLoop e cfg allCoords rest successes outputs
                               (skipIndex e cfg i message w1)
                         | None \<Rightarrow>
                             sampleLoop e cfg allCoords rest (successes + 1) (outputs @ [outputPath])
                               (w1\<lparr>files := files w1 @ [(outputPath, img)]\<rparr>)))))"

definition shortfallMessage :: "(real \<Rightarrow> string) \<Rightarrow> nat \<Rightarrow> jsnum \<Rightarrow> string" where
  "shortfallMessage other successes wanted =
     ''Only generated '' @ numberToString other (Fin (real successes)) @ '' of ''
     @ numberToString other wanted @ '' images due to unavailable Street View or errors.''"

text \<open>
  \<^verbatim>\<open>main\<close> from the shuffle on, with the \<^verbatim>\<open>catch\<close> of its call: an error of
  \<^verbatim>\<open>ensureDir\<close> is the only one thrown outside the loop's \<^verbatim>\<open>try\<close>.
\<close>

definition main :: "env \<Rightarrow> Settings \<Rightarrow> Coordinates list \<Rightarrow> world \<Rightarrow> string list outcome \<times> world" where
  "main e cfg allCoords w =
     (let indices = shuffleIndices (mathRandom e) (length allCoords)
      in case mkdirError e of
           Some message \<Rightarrow> exitWithError (if message = [] then ''Error'' else message) w
         | None \<Rightarrow>
             (case sampleLoop e cfg allCoords indices 0 [] w of
                (Exit message, w1) \<Rightarrow> (Exit message, w1)
              | (Throw message, w1) \<Rightarrow> exitWithError message w1
              | (Ok (successes, outputs), w1) \<Rightarrow>
                  if js_lt (Fin (real successes)) (opt_count cfg)
                  then exitWithError (shortfallMessage (fmtOther e) successes (opt_count cfg)) w1
                  else (Ok outputs, w1\<lparr>stdout := stdout w1 @ outputs\<rparr>)))"

section \<open>An environment for the examples\<close>

text \<open>
  A runtime, a network and a browser to run the program on concrete inputs.
  \<open>exampleNumber\<close> agrees with \<^verbatim>\<open>Number(s)\<close> on the strings the examples use;
  \<open>exampleFormat\<close> is never consulted on an integer. The metadata service has no imagery
  at the location \<^verbatim>\<open>1,1\<close> and imagery everywhere else.
\<close>

definition exampleNumber :: "string \<Rightarrow> jsnum" where
  "exampleNumber s =
     (if s = ''1920'' then Fin 1920
      else if s = ''1080'' then Fin 1080
      else if s = ''2000'' then Fin 2000
      else if s = ''-0'' then NegZero
      else NaN)"

definition exampleFormat :: "real \<Rightarrow> string" where
  "exampleFormat x = ''?''"

definition exampleGet :: "url \<Rightarrow> string + Buffer" where
  "exampleGet u =
     (case u of Url base pairs \<Rightarrow>
        if map_of pairs ''location'' = Some ''1,1'' then Inr [0] else Inr [1])"

definition exampleJson :: "Buffer \<Rightarrow> Metadata option" where
  "exampleJson body =
     Some \<lparr>status = Some (if body = [0] then ''ZERO_RESULTS'' else ''OK''),
           error_message = None\<rparr>"

definition examplePage :: Page where
  "examplePage =
     \<lparr>launchError = None, newPageError = None, setViewportError = None, gotoError = None,
      query = (\<lambda>sel. Missing), buttons = Some [],
      screenshot = Inr [7], closeError = None\<rparr>"

definition exampleEnv :: env where
  "exampleEnv =
     \<lparr>strToNum = exampleNumber, fmtOther = exampleFormat, mathRandom = (\<lambda>k. 0),
      httpsGet = exampleGet, jsonParse = exampleJson, sharpImport = True,
      sharpResize = (\<lambda>raw w h fit. Inr raw), chrome = (\<lambda>u. examplePage),
      writeFile = (\<lambda>path buffer. None), mkdirError = None,
      dateNow = (\<lambda>k. 1000 + k), pathResolve = (\<lambda>dir name. dir @ ''/'' @ name)\<rparr>"

definition place :: "real \<Rightarrow> real \<Rightarrow> Coordinates" where
  "place la lo =
     \<lparr>lat = Fin la, lng = Fin lo, heading = None, pitch = None, fov = None, csize = None\<rparr>"

definition exampleSettings :: Settings where
  "exampleSettings =
     \<lparr>opt_apiKey = ''k'', opt_count = Fin 1, opt_size = ''1920x1080'', opt_scale = Fin 2,
      opt_verbose = False, opt_heading = Fin 0, opt_pitch = Fin 0, opt_fov = Fin 90,
      opt_radius = Fin 100, opt_source = ''outdoor'', opt_outputDir = ''/out'',
      opt_namePrefix = Some ''shot'', opt_fit = ''cover'', opt_mode = None\<rparr>"

section \<open>Rounding at concrete values\<close>

lemma binade_eq:
  assumes "2 powi e \<le> \<bar>x\<bar>" and "\<bar>x\<bar> < 2 powi (e + 1)" and "- 1022 \<le> e"
  shows "binade x = e"
proof -
  have pos: "0 < \<bar>x\<bar>"
    using assms(1) by (smt (verit) zero_less_power_int)
  have a: "(2::real) powr of_int e = 2 powi e"
    and b: "(2::real) powr (of_int e + 1) = 2 powi (e + 1)"
    using powr_real_of_int' [of 2 e] powr_real_of_int' [of 2 "e + 1"] by simp_all
  have "2 powr of_int e \<le> \<bar>x\<bar>" and "\<bar>x\<bar> < 2 powr (of_int e + 1)"
    using assms(1,2) by (simp_all only: a b)
  then have "\<lfloor>log 2 \<bar>x\<bar>\<rfloor> = e"
    using pos floor_log_eq_powr_iff [of "\<bar>x\<bar>" 2 e] by simp
  then show ?thesis using assms(3) by (simp add: binade_def)
qed

lemma rd_in_binade:
  assumes "2 powi e \<le> \<bar>x\<bar>" and "\<bar>x\<bar> < 2 powi (e + 1)" and "- 1022 \<le> e"
  shows "rd x = of_int (round_even (x / 2 powi (e - 52))) * 2 powi (e - 52)"
proof -
  have "x \<noteq> 0" using assms(1) by (smt (verit) zero_less_power_int)
  then show ?thesis
    by (simp add: rd_def quantum_def binade_eq [OF assms])
qed



lemma rd_1000: "rd 1000 = 1000"
  by (simp add: rd_in_binade [of 9] round_even_def)










lemma div_negzero_2: "js_div NegZero (Fin 2) = NegZero"
  by (simp add: js_div_def signed_zero_def finish_def rd_def)

lemma div_2000_2: "js_div (Fin 2000) (Fin 2) = Fin 1000"
  by (simp add: js_div_def finish_def rd_1000)

lemma div_640_negzero: "js_div (Fin 640) NegZero = NegInf"
  by (simp add: js_div_def signed_inf_def)

lemma min_neginf: "js_min NegInf b = (if b = NaN then NaN else NegInf)"
  by (cases b) (simp_all add: js_min_def)

lemma mul_negzero_neginf: "js_mul NegZero NegInf = NaN"
  by (simp add: js_mul_def)

lemma mul_1000_neginf: "js_mul (Fin 1000) NegInf = NegInf"
  by (simp add: js_mul_def signed_inf_def)

lemma div_fin_not_nan: "y \<noteq> 0 \<Longrightarrow> js_div (Fin x) (Fin y) \<noteq> NaN"
  by (simp add: js_div_def finish_def signed_zero_def signed_inf_def Let_def)

section \<open>The size resolver\<close>


text \<open>
  C4. A finite scale hint selects scale 1 when it is exactly 1 and scale 2 otherwise
  (a fraction, a zero of either sign, a negative number, a number above 2). Without a
  finite hint (none, NaN or an infinity) the scale is 2 when the requested width or the
  requested height is above 640, and 1 otherwise.
\<close>

theorem computeEffectiveScale_cases:
  "computeEffectiveScale requested hint =
     (case hint of
        Some (Fin x) \<Rightarrow> if x = 1 then Fin 1 else Fin 2
      | Some NegZero \<Rightarrow> Fin 2
      | _ \<Rightarrow>
          if js_gt (width requested) (Fin 640) \<or> js_gt (height requested) (Fin 640)
          then Fin 2 else Fin 1)"
proof (cases hint)
  case None
  then show ?thesis
    by (simp add: computeEffectiveScale_def js_eq_def)
next
  case (Some s)
  then show ?thesis
    by (cases s) (simp_all add: computeEffectiveScale_def js_eq_def)
qed

theorem computeEffectiveScale_cases_witness:
  "computeEffectiveScale \<lparr>width = Fin 100, height = Fin 100\<rparr> (Some (Fin 1)) = Fin 1
   \<and> computeEffectiveScale \<lparr>width = Fin 100, height = Fin 100\<rparr> (Some (Fin (3 / 2))) = Fin 2
   \<and> computeEffectiveScale \<lparr>width = Fin 100, height = Fin 100\<rparr> (Some (Fin 0)) = Fin 2
   \<and> computeEffectiveScale \<lparr>width = Fin 100, height = Fin 100\<rparr> (Some (Fin (- 1))) = Fin 2
   \<and> computeEffectiveScale \<lparr>width = Fin 100, height = Fin 100\<rparr> (Some (Fin 3)) = Fin 2
   \<and> computeEffectiveScale \<lparr>width = Fin 100, height = Fin 641\<rparr> None = Fin 2
   \<and> computeEffectiveScale \<lparr>width = Fin 640, height = Fin 640\<rparr> (Some NaN) = Fin 1"
  using computeEffectiveScale_cases [of "\<lparr>width = Fin 100, height = Fin 100\<rparr>" "Some (Fin 1)"]
    computeEffectiveScale_cases [of "\<lparr>width = Fin 100, height = Fin 100\<rparr>" "Some (Fin (3 / 2))"]
    computeEffectiveScale_cases [of "\<lparr>width = Fin 100, height = Fin 100\<rparr>" "Some (Fin 0)"]
    computeEffectiveScale_cases [of "\<lparr>width = Fin 100, height = Fin 100\<rparr>" "Some (Fin (- 1))"]
    computeEffectiveScale_cases [of "\<lparr>width = Fin 100, height = Fin 100\<rparr>" "Some (Fin 3)"]
    computeEffectiveScale_cases [of "\<lparr>width = Fin 100, height = Fin 641\<rparr>" None]
    computeEffectiveScale_cases [of "\<lparr>width = Fin 640, height = Fin 640\<rparr>" "Some NaN"]
  by (simp add: js_gt_def)

text \<open>
  C3. The size string \<^verbatim>\<open>-0x2000\<close> parses to the finite size of width negative zero and
  height 2000. At scale 2 its logical width is negative zero and its logical height 1000
  is above the cap, so the ratio is the smaller of \<open>640 / -0\<close>, negative infinity, and
  \<open>640 / 1000\<close>; the product of negative zero and negative infinity is NaN, and
  \<^verbatim>\<open>Math.max(1, NaN)\<close> is NaN. The logical width returned is NaN: not a value between 1
  and 640.
\<close>

theorem computeLogicalSize_negative_zero:
  "parseSize exampleNumber (Some ''-0x2000'') \<lparr>width = Fin 1920, height = Fin 1080\<rparr>
     = \<lparr>width = NegZero, height = Fin 2000\<rparr>
   \<and> computeEffectiveScale \<lparr>width = NegZero, height = Fin 2000\<rparr> (Some (Fin 2)) = Fin 2
   \<and> computeLogicalSize \<lparr>width = NegZero, height = Fin 2000\<rparr> (Fin 2) (Fin 640)
       = \<lparr>width = NaN, height = Fin 1\<rparr>"
proof -
  have parsed:
    "parseSize exampleNumber (Some ''-0x2000'') \<lparr>width = Fin 1920, height = Fin 1080\<rparr>
       = \<lparr>width = NegZero, height = Fin 2000\<rparr>"
    by (simp add: parseSize_def element_def toNumber_def exampleNumber_def)
  have scale: "computeEffectiveScale \<lparr>width = NegZero, height = Fin 2000\<rparr> (Some (Fin 2)) = Fin 2"
    by (simp add: computeEffectiveScale_def js_eq_def)
  have logical:
    "computeLogicalSize \<lparr>width = NegZero, height = Fin 2000\<rparr> (Fin 2) (Fin 640)
       = \<lparr>width = NaN, height = Fin 1\<rparr>"
    by (simp add: computeLogicalSize_def Let_def div_negzero_2 div_2000_2 div_640_negzero
        min_neginf mul_negzero_neginf mul_1000_neginf div_fin_not_nan js_gt_def js_max_def)
  show ?thesis
    using parsed scale logical by simp
qed

theorem computeLogicalSize_negative_zero_witness:
  "width (computeLogicalSize \<lparr>width = NegZero, height = Fin 2000\<rparr> (Fin 2) (Fin 640)) = NaN"
  using computeLogicalSize_negative_zero by simp

text \<open>
  C10. When the width or the height component of a size string does not convert to a
  finite number (a missing component converts as \<^verbatim>\<open>undefined\<close>, to NaN), \<^verbatim>\<open>parseSize\<close>
  returns the fallback it was given, unchanged. In the loop the fallback is 1920 x 1080,
  so a coordinate with such a size is captured at 1920 x 1080.
\<close>

theorem parseSize_malformed:
  assumes "\<not> isFinite (toNumber (strToNum e) (element (split_on CHR ''x'' s) 0))
           \<or> \<not> isFinite (toNumber (strToNum e) (element (split_on CHR ''x'' s) 1))"
  shows "parseSize (strToNum e) (Some s) fallback = fallback
         \<and> (csize coords = Some s \<and> s \<noteq> []
              \<longrightarrow> requestedSize e cfg coords = \<lparr>width = Fin 1920, height = Fin 1080\<rparr>)"
proof -
  have fallback: "parseSize (strToNum e) (Some s) fb = fb" for fb
    using assms by (auto simp add: parseSize_def Let_def)
  show ?thesis
    by (simp add: fallback requestedSize_def orString_def)
qed

theorem parseSize_malformed_witness:
  "parseSize exampleNumber (Some ''1920'') \<lparr>width = Fin 7, height = Fin 8\<rparr>
     = \<lparr>width = Fin 7, height = Fin 8\<rparr>
   \<and> requestedSize exampleEnv exampleSettings ((place 0 0)\<lparr>csize := Some ''1920''\<rparr>)
       = \<lparr>width = Fin 1920, height = Fin 1080\<rparr>"
proof -
  have missing:
    "\<not> isFinite (toNumber (strToNum exampleEnv) (element (split_on CHR ''x'' ''1920'') 0))
     \<or> \<not> isFinite (toNumber (strToNum exampleEnv) (element (split_on CHR ''x'' ''1920'') 1))"
    by (simp add: element_def toNumber_def)
  show ?thesis
    using parseSize_malformed [OF missing, of "\<lparr>width = Fin 7, height = Fin 8\<rparr>"
        "(place 0 0)\<lparr>csize := Some ''1920''\<rparr>" exampleSettings]
    by (simp add: exampleEnv_def place_def)
qed

section \<open>Output names\<close>

lemma digits_1: "digits 1 = ''1''"
  by code_simp

lemma string_of_1: "numberToString other (Fin 1) = ''1''"
  using digits_1 by (simp add: numberToString_def)

lemma digits_0: "digits 0 = ''0''"
  by code_simp

lemma string_of_0: "numberToString other (Fin 0) = ''0''"
  using digits_0 by (simp add: numberToString_def)

lemma digits_1000: "digits 1000 = ''1000''"
  by code_simp

lemma digits_2000: "digits 2000 = ''2000''"
  by code_simp

text \<open>
  C8, as stated, fails: with no prefix the name ends in the time of the clock, so the
  same coordinate and the same success index get two names at two times.
\<close>

theorem buildBaseName_clock_counterexample:
  "buildBaseName exampleFormat 1000 None (place 0 0) (Fin 1)
     \<noteq> buildBaseName exampleFormat 2000 None (place 0 0) (Fin 1)"
  by (simp add: buildBaseName_def numberToString_def place_def digits_0 digits_1000 digits_2000)

text \<open>
  C8, amended. With a prefix that is not empty the name is the prefix, an underscore and
  the success index: it depends on nothing else, so two runs with the same prefix give
  the same success the same name. With no prefix, or an empty one, the name is latitude,
  longitude and the time of the clock.
\<close>

theorem buildBaseName_cases:
  "(p \<noteq> [] \<longrightarrow>
      buildBaseName other now (Some p) coords index = p @ ''_'' @ numberToString other index)
   \<and> buildBaseName other now None coords index
       = numberToString other (lat coords) @ ''_'' @ numberToString other (lng coords)
         @ ''_'' @ numberToString other (Fin (real now))
   \<and> buildBaseName other now (Some []) coords index
       = buildBaseName other now None coords index"
  by (simp add: buildBaseName_def)

theorem buildBaseName_cases_witness:
  "buildBaseName exampleFormat 1000 (Some ''shot'') (place 0 0) (Fin 1) = ''shot_1''
   \<and> buildBaseName exampleFormat 2000 (Some ''shot'') (place 5 5) (Fin 1) = ''shot_1''"
  using buildBaseName_cases [of "''shot''" exampleFormat 1000 "place 0 0" "Fin 1"]
    buildBaseName_cases [of "''shot''" exampleFormat 2000 "place 5 5" "Fin 1"]
  by (simp add: string_of_1)

section \<open>The API capture\<close>

lemma httpGet_Inr:
  "httpsGet e u = Inr body \<Longrightarrow> httpGet e u w = (Ok body, w\<lparr>requests := requests w @ [u]\<rparr>)"
  by (simp add: httpGet_def)

lemma httpGet_Inl:
  "httpsGet e u = Inl m \<Longrightarrow> httpGet e u w = (Throw m, w\<lparr>requests := requests w @ [u]\<rparr>)"
  by (simp add: httpGet_def)

text \<open>
  C2. When the metadata request is answered and the answer's status is not \<^verbatim>\<open>"OK"\<close>,
  the capture ends at once with the message \<^verbatim>\<open>No Street View available\<close>, and the
  metadata request is the only request it has sent: no image is fetched.
\<close>

theorem metadata_not_ok:
  assumes "httpsGet e
             (buildMetadataUrl (fmtOther e) (lat coords) (lng coords)
                \<lparr>p_key = o_apiKey options, p_radius = Some (o_radius options),
                 p_source = Some (o_source options), p_size = None, p_scale = None,
                 p_heading = None, p_pitch = None, p_fov = None\<rparr>) = Inr body"
    and "jsonParse e body = Some data"
    and "status data \<noteq> Some ''OK''"
  shows "createImageWithApi e coords options w =
           (Exit (unavailableMessage data),
            w\<lparr>requests := requests w @
                 [buildMetadataUrl (fmtOther e) (lat coords) (lng coords)
                    \<lparr>p_key = o_apiKey options, p_radius = Some (o_radius options),
                     p_source = Some (o_source options), p_size = None, p_scale = None,
                     p_heading = None, p_pitch = None, p_fov = None\<rparr>],
               stderr := stderr w @ [unavailableMessage data]\<rparr>)"
  using assms
  by (simp add: createImageWithApi_def ensureMetadataAvailable_def httpGet_Inr
      exitWithError_def)

lemma digits_100: "digits 100 = ''100''"
  by code_simp

lemma string_of_100: "numberToString other (Fin 100) = ''100''"
  using digits_100 by (simp add: numberToString_def)

lemma place_sel:
  "lat (place a b) = Fin a" "lng (place a b) = Fin b" "heading (place a b) = None"
  "pitch (place a b) = None" "fov (place a b) = None" "csize (place a b) = None"
  by (simp_all add: place_def)

lemma meta_1_1:
  "buildMetadataUrl exampleFormat (Fin 1) (Fin 1)
     \<lparr>p_key = ''k'', p_radius = Some (Fin 100), p_source = Some ''outdoor'', p_size = None,
      p_scale = None, p_heading = None, p_pitch = None, p_fov = None\<rparr>
   = Url ''https://maps.googleapis.com/maps/api/streetview/metadata''
       [(''location'', ''1,1''), (''key'', ''k''), (''radius'', ''100''), (''source'', ''outdoor'')]"
  by (simp add: buildMetadataUrl_def location_def string_of_1 string_of_100 orNumber_def
      orString_def)

theorem metadata_not_ok_witness:
  "createImageWithApi exampleEnv (place 1 1)
     \<lparr>o_apiKey = ''k'', o_requested = \<lparr>width = Fin 1920, height = Fin 1080\<rparr>,
      o_scaleArg = Some (Fin 2), o_heading = Fin 0, o_pitch = Fin 0, o_fov = Fin 90,
      o_radius = Fin 100, o_source = ''outdoor'', o_fit = ''cover'', o_verbose = False\<rparr> world0
   = (Exit ''No Street View available: ZERO_RESULTS'',
      world0\<lparr>requests :=
               [Url ''https://maps.googleapis.com/maps/api/streetview/metadata''
                  [(''location'', ''1,1''), (''key'', ''k''), (''radius'', ''100''),
                   (''source'', ''outdoor'')]],
             stderr := [''No Street View available: ZERO_RESULTS'']\<rparr>)"
  using metadata_not_ok [of exampleEnv "place 1 1"
      "\<lparr>o_apiKey = ''k'', o_requested = \<lparr>width = Fin 1920, height = Fin 1080\<rparr>,
        o_scaleArg = Some (Fin 2), o_heading = Fin 0, o_pitch = Fin 0, o_fov = Fin 90,
        o_radius = Fin 100, o_source = ''outdoor'', o_fit = ''cover'', o_verbose = False\<rparr>"
      "[0]" "\<lparr>status = Some ''ZERO_RESULTS'', error_message = None\<rparr>" world0]
  by (simp add: exampleEnv_def place_def meta_1_1 exampleGet_def exampleJson_def
      unavailableMessage_def world0_def)

text \<open>The default request of the examples, 1920 x 1080 at scale 2, is fetched at 640 x 360.\<close>

lemma rd_960: "rd 960 = 960"
  by (simp add: rd_in_binade [of 9] round_even_def)

lemma rd_540: "rd 540 = 540"
  by (simp add: rd_in_binade [of 9] round_even_def)

lemma rd_two_thirds: "rd (2 / 3) = 6004799503160661 / 2 ^ 53"
  by (simp add: rd_in_binade [of "-1"] round_even_def)

lemma rd_32_27: "rd (32 / 27) = 5337599558365032 / 2 ^ 52"
  by (simp add: rd_in_binade [of 0] round_even_def)

lemma logical_1920_1080:
  "computeLogicalSize \<lparr>width = Fin 1920, height = Fin 1080\<rparr> (Fin 2) (Fin 640)
     = \<lparr>width = Fin 640, height = Fin 360\<rparr>"
proof -
  have a: "js_div (Fin 1920) (Fin 2) = Fin 960"
    by (simp add: js_div_def finish_def rd_960)
  have b: "js_div (Fin 1080) (Fin 2) = Fin 540"
    by (simp add: js_div_def finish_def rd_540)
  have c: "js_div (Fin 640) (Fin 960) = Fin (6004799503160661 / 9007199254740992)"
    using rd_two_thirds by (simp add: js_div_def finish_def)
  have d: "js_div (Fin 640) (Fin 540) = Fin (5337599558365032 / 4503599627370496)"
    using rd_32_27 by (simp add: js_div_def finish_def)
  have m: "js_min (js_div (Fin 640) (Fin 960)) (js_div (Fin 640) (Fin 540))
             = Fin (6004799503160661 / 9007199254740992)"
    by (simp add: c d js_min_def)
  have f: "js_mul (Fin 960) (Fin (6004799503160661 / 9007199254740992)) = Fin 640"
    by (simp add: js_mul_def finish_def rd_in_binade [of 9] round_even_def)
  have g: "js_mul (Fin 540) (Fin (6004799503160661 / 9007199254740992)) = Fin 360"
    by (simp add: js_mul_def finish_def rd_in_binade [of 8] round_even_def)
  show ?thesis
    by (simp add: computeLogicalSize_def Let_def a b m f g js_gt_def js_max_def)
qed

lemma requested_default:
  "requestedSize exampleEnv exampleSettings (place a b) = \<lparr>width = Fin 1920, height = Fin 1080\<rparr>"
  by (simp add: requestedSize_def exampleEnv_def exampleSettings_def place_def orString_def
      parseSize_def element_def toNumber_def exampleNumber_def)

lemma api_bad:
  "createImageWithApi exampleEnv (place 1 1)
     \<lparr>o_apiKey = ''k'', o_requested = r, o_scaleArg = sc, o_heading = Fin 0, o_pitch = Fin 0,
      o_fov = Fin 90, o_radius = Fin 100, o_source = ''outdoor'', o_fit = ''cover'',
      o_verbose = False\<rparr> w
   = (Exit ''No Street View available: ZERO_RESULTS'',
      w\<lparr>requests := requests w @
               [Url ''https://maps.googleapis.com/maps/api/streetview/metadata''
                  [(''location'', ''1,1''), (''key'', ''k''), (''radius'', ''100''),
                   (''source'', ''outdoor'')]],
         stderr := stderr w @ [''No Street View available: ZERO_RESULTS'']\<rparr>)"
  by (simp add: createImageWithApi_def ensureMetadataAvailable_def httpGet_def exitWithError_def
      exampleEnv_def place_def meta_1_1 exampleGet_def exampleJson_def unavailableMessage_def)

lemma capture_bad:
  "captureImage exampleEnv exampleSettings (place 1 1) r w
   = (Exit ''No Street View available: ZERO_RESULTS'',
      w\<lparr>requests := requests w @
               [Url ''https://maps.googleapis.com/maps/api/streetview/metadata''
                  [(''location'', ''1,1''), (''key'', ''k''), (''radius'', ''100''),
                   (''source'', ''outdoor'')]],
         stderr := stderr w @ [''No Street View available: ZERO_RESULTS'']\<rparr>)"
  by (simp add: captureImage_def exampleSettings_def api_bad resolveAngle_def place_sel)

lemma api_good:
  assumes "location exampleFormat (lat c) (lng c) \<noteq> ''1,1''"
  shows "\<exists>w1. createImageWithApi exampleEnv c
                 \<lparr>o_apiKey = ''k'', o_requested = \<lparr>width = Fin 1920, height = Fin 1080\<rparr>,
                  o_scaleArg = Some (Fin 2), o_heading = hv, o_pitch = pv, o_fov = fv,
                  o_radius = Fin 100, o_source = ''outdoor'', o_fit = ''cover'',
                  o_verbose = False\<rparr> w
               = (Ok [1], w1)
             \<and> visited w1 = visited w \<and> files w1 = files w"
  using assms
  by (simp add: createImageWithApi_def ensureMetadataAvailable_def httpGet_def exitWithError_def
      downloadImage_def getSharpOrThrow_def Let_def
      exampleEnv_def buildMetadataUrl_def buildImageUrl_def exampleGet_def exampleJson_def
      computeEffectiveScale_def js_eq_def js_gt_def logical_1920_1080)

lemma capture_good:
  assumes "location exampleFormat (Fin a) (Fin b) \<noteq> ''1,1''"
  shows "\<exists>w1. captureImage exampleEnv exampleSettings (place a b)
                 \<lparr>width = Fin 1920, height = Fin 1080\<rparr> w = (Ok [1], w1)
             \<and> visited w1 = visited w \<and> files w1 = files w"
  using assms api_good [of "place a b" "Fin 0" "Fin 0" "Fin 90" w]
  by (simp add: captureImage_def exampleSettings_def resolveAngle_def place_sel)

lemma location_0_0: "location other (Fin 0) (Fin 0) = ''0,0''"
  by (simp add: location_def string_of_0)

lemma location_0_1: "location other (Fin 0) (Fin 1) = ''0,1''"
  by (simp add: location_def string_of_0 string_of_1)

section \<open>The browser capture\<close>

text \<open>
  A direct call that sets \<^verbatim>\<open>useEmbed\<close> and gives no key, which \<^verbatim>\<open>main\<close> never makes
  (it stops on a missing key and always passes the key): the URL is chosen by
  \<^verbatim>\<open>useEmbed && key\<close> and is the interactive one, consent handling is chosen by
  \<^verbatim>\<open>!useEmbed\<close> alone and is skipped.
\<close>

lemma embed_without_key:
  "captureStreetViewWithBrowser exampleEnv (Fin 0) (Fin 0)
     \<lparr>b_width = Fin 800, b_height = Fin 600, b_key = None, b_heading = None, b_pitch = None,
      b_fov = None, useEmbed = Some True\<rparr> world0
   = (Ok [7],
      world0\<lparr>browser :=
               [Launch, NewPage, SetViewport (Fin 800) (Fin 600),
                Goto (Url ''https://www.google.com/maps/@''
                        [(''api'', ''1''), (''map_action'', ''pano''), (''viewpoint'', ''0,0'')]),
                Sleep 1500, Screenshot, Close]\<rparr>)"
  by (simp add: captureStreetViewWithBrowser_def captureSteps_def embedOn_def keyGiven_def
      buildMapsPanoUrl_def angles_def location_0_0 exampleEnv_def examplePage_def world0_def)

text \<open>
  The same capture without \<^verbatim>\<open>useEmbed\<close>: the same interactive URL, and now the six
  selectors are probed in their order, then the buttons of the page.
\<close>

lemma interactive_probes_consent:
  "captureStreetViewWithBrowser exampleEnv (Fin 0) (Fin 0)
     \<lparr>b_width = Fin 800, b_height = Fin 600, b_key = None, b_heading = None, b_pitch = None,
      b_fov = None, useEmbed = None\<rparr> world0
   = (Ok [7],
      world0\<lparr>browser :=
               [Launch, NewPage, SetViewport (Fin 800) (Fin 600),
                Goto (Url ''https://www.google.com/maps/@''
                        [(''api'', ''1''), (''map_action'', ''pano''), (''viewpoint'', ''0,0'')])]
               @ map Query candidates
               @ [QueryAll ''button'', Sleep 1500, WaitForSelector ''canvas'', Screenshot,
                  Close]\<rparr>)"
  by (simp add: captureStreetViewWithBrowser_def captureSteps_def embedOn_def keyGiven_def
      buildMapsPanoUrl_def angles_def location_0_0 exampleEnv_def examplePage_def world0_def
      tryClickConsent_def candidates_def)

lemma probeSelectors_extends:
  "\<exists>more. snd (probeSelectors page sels evs) = evs @ more"
proof (induction sels arbitrary: evs)
  case Nil
  then show ?case by simp
next
  case (Cons sel sels)
  obtain m1 m2 where
    "snd (probeSelectors page sels (evs @ [Query sel])) = (evs @ [Query sel]) @ m1"
    "snd (probeSelectors page sels (evs @ [Query sel, Click sel])) = (evs @ [Query sel, Click sel]) @ m2"
    using Cons.IH by blast
  then show ?case
    by (cases "query page sel") auto
qed

lemma probeSelectors_first:
  "\<exists>more. snd (probeSelectors page (sel # sels) evs) = evs @ Query sel # more"
proof -
  obtain m1 m2 where
    "snd (probeSelectors page sels (evs @ [Query sel])) = (evs @ [Query sel]) @ m1"
    "snd (probeSelectors page sels (evs @ [Query sel, Click sel])) = (evs @ [Query sel, Click sel]) @ m2"
    using probeSelectors_extends by blast
  then show ?thesis
    by (cases "query page sel") auto
qed

lemma probeButtons_extends:
  "\<exists>more. probeButtons bs n evs = evs @ more"
proof (induction bs n evs rule: probeButtons.induct)
  case (1 n evs)
  then show ?case by simp
next
  case (2 clicks bs n evs)
  then show ?case by simp
next
  case (3 label clicks bs n evs)
  show ?case
  proof (cases "consentText label")
    case True
    then show ?thesis by simp
  next
    case False
    then obtain more where "probeButtons bs (Suc n) (evs @ [TextOf n]) = (evs @ [TextOf n]) @ more"
      using "3.IH" by blast
    then show ?thesis
      using False by simp
  qed
qed

text \<open>Consent handling, once entered, always makes its first probe.\<close>

lemma tryClickConsent_probes:
  "\<exists>probes. tryClickConsent page evs = evs @ Query (hd candidates) # probes"
proof -
  obtain c cs where cands: "candidates = c # cs"
    by (simp add: candidates_def)
  obtain returned evs1 where sel: "probeSelectors page (c # cs) evs = (returned, evs1)"
    by (meson surj_pair)
  obtain more where evs1: "evs1 = evs @ Query c # more"
    using probeSelectors_first [of page c cs evs] sel by auto
  show ?thesis
  proof (cases returned)
    case True
    then show ?thesis
      by (simp add: tryClickConsent_def cands sel evs1 del: probeSelectors.simps)
  next
    case False
    show ?thesis
    proof (cases "buttons page")
      case None
      then show ?thesis
        using False by (simp add: tryClickConsent_def cands sel evs1 del: probeSelectors.simps)
    next
      case (Some bs)
      obtain m where "probeButtons bs 0 (evs1 @ [QueryAll ''button'']) = (evs1 @ [QueryAll ''button'']) @ m"
        using probeButtons_extends by blast
      then show ?thesis
        using False Some
        by (simp add: tryClickConsent_def cands sel evs1 del: probeSelectors.simps)
    qed
  qed
qed

lemma urls_differ: "buildMapsPanoUrl other la lo params \<noteq> buildEmbedStreetViewUrl other la' lo' params'"
  by (simp add: buildMapsPanoUrl_def buildEmbedStreetViewUrl_def)

text \<open>
  C9. The browser is launched and the page is reached. A capture with \<^verbatim>\<open>useEmbed\<close> and a
  key, which is every capture \<^verbatim>\<open>main\<close> starts in browser mode, goes to the direct-viewer
  URL and then only waits the settle delay before the screenshot: no consent probe is
  made. A capture without \<^verbatim>\<open>useEmbed\<close> goes to the interactive map URL and then probes
  for the consent overlay, from the first selector on, before the settle delay and the
  wait for the canvas. The two URLs are never the same, so consent dismissal is attempted
  exactly when the interactive URL is the target.
\<close>

theorem consent_follows_target:
  assumes "\<forall>u. launchError (chrome e u) = None"
    and "\<forall>u. newPageError (chrome e u) = None"
    and "\<forall>u. setViewportError (chrome e u) = None"
    and "\<forall>u. gotoError (chrome e u) = None"
    and "embedOn params \<longrightarrow> keyGiven params"
  shows "(embedOn params \<longrightarrow>
            browser (snd (captureStreetViewWithBrowser e la lo params w))
              = browser w @
                [Launch, NewPage, SetViewport (b_width params) (b_height params),
                 Goto (buildEmbedStreetViewUrl (fmtOther e) la lo params),
                 Sleep 1500, Screenshot, Close])
         \<and> (\<not> embedOn params \<longrightarrow>
              (\<exists>probes.
                 browser (snd (captureStreetViewWithBrowser e la lo params w))
                   = browser w @
                     [Launch, NewPage, SetViewport (b_width params) (b_height params),
                      Goto (buildMapsPanoUrl (fmtOther e) la lo params),
                      Query (hd candidates)]
                     @ probes @ [Sleep 1500, WaitForSelector ''canvas'', Screenshot, Close]))
         \<and> buildMapsPanoUrl (fmtOther e) la lo params
             \<noteq> buildEmbedStreetViewUrl (fmtOther e) la lo params
         \<and> (opt_mode cfg = Some ''browser'' \<and> opt_apiKey cfg \<noteq> [] \<longrightarrow>
              browser (snd (captureImage e cfg coords requested w))
                = browser w @
                  [Launch, NewPage, SetViewport (width requested) (height requested),
                   Goto (buildEmbedStreetViewUrl (fmtOther e) (lat coords) (lng coords)
                           \<lparr>b_width = width requested, b_height = height requested,
                            b_key = Some (opt_apiKey cfg),
                            b_heading = Some (resolveAngle (heading coords) (opt_heading cfg)),
                            b_pitch = Some (resolveAngle (pitch coords) (opt_pitch cfg)),
                            b_fov = Some (resolveAngle (fov coords) (opt_fov cfg)),
                            useEmbed = Some True\<rparr>),
                   Sleep 1500, Screenshot, Close])"
proof -
  have embed:
    "browser (snd (captureStreetViewWithBrowser e la lo p w))
       = browser w @
         [Launch, NewPage, SetViewport (b_width p) (b_height p),
          Goto (buildEmbedStreetViewUrl (fmtOther e) la lo p), Sleep 1500, Screenshot, Close]"
    if "embedOn p" "keyGiven p" for la lo p
    using that assms(1-4)
    by (simp add: captureStreetViewWithBrowser_def captureSteps_def Let_def
        split: option.splits sum.splits)
  have interactive:
    "\<exists>probes.
       browser (snd (captureStreetViewWithBrowser e la lo params w))
         = browser w @
           [Launch, NewPage, SetViewport (b_width params) (b_height params),
            Goto (buildMapsPanoUrl (fmtOther e) la lo params), Query (hd candidates)]
           @ probes @ [Sleep 1500, WaitForSelector ''canvas'', Screenshot, Close]"
    if off: "\<not> embedOn params"
  proof -
    define u where "u = buildMapsPanoUrl (fmtOther e) la lo params"
    define start where
      "start = browser w @ [Launch, NewPage, SetViewport (b_width params) (b_height params), Goto u]"
    obtain probes where probes:
      "tryClickConsent (chrome e u) start = start @ Query (hd candidates) # probes"
      using tryClickConsent_probes by blast
    have eq: "browser (snd (captureStreetViewWithBrowser e la lo params w))
            = tryClickConsent (chrome e u) start
              @ [Sleep 1500, WaitForSelector ''canvas'', Screenshot, Close]"
      using off assms(1-4)
      by (simp add: captureStreetViewWithBrowser_def captureSteps_def Let_def u_def start_def
          split: option.splits sum.splits)
    show ?thesis
      unfolding eq probes by (intro exI [of _ probes]) (simp add: start_def u_def)
  qed
  have program:
    "browser (snd (captureImage e cfg coords requested w))
       = browser w @
         [Launch, NewPage, SetViewport (width requested) (height requested),
          Goto (buildEmbedStreetViewUrl (fmtOther e) (lat coords) (lng coords)
                  \<lparr>b_width = width requested, b_height = height requested,
                   b_key = Some (opt_apiKey cfg),
                   b_heading = Some (resolveAngle (heading coords) (opt_heading cfg)),
                   b_pitch = Some (resolveAngle (pitch coords) (opt_pitch cfg)),
                   b_fov = Some (resolveAngle (fov coords) (opt_fov cfg)),
                   useEmbed = Some True\<rparr>),
          Sleep 1500, Screenshot, Close]"
    if "opt_mode cfg = Some ''browser''" "opt_apiKey cfg \<noteq> []"
    using that
      embed [of "\<lparr>b_width = width requested, b_height = height requested,
                  b_key = Some (opt_apiKey cfg),
                  b_heading = Some (resolveAngle (heading coords) (opt_heading cfg)),
                  b_pitch = Some (resolveAngle (pitch coords) (opt_pitch cfg)),
                  b_fov = Some (resolveAngle (fov coords) (opt_fov cfg)),
                  useEmbed = Some True\<rparr>" "lat coords" "lng coords"]
    by (simp add: captureImage_def Let_def embedOn_def keyGiven_def)
  show ?thesis
    using embed [of params la lo] interactive program assms(5) urls_differ
    by blast
qed

theorem consent_follows_target_witness:
  "browser (snd (captureImage exampleEnv (exampleSettings\<lparr>opt_mode := Some ''browser''\<rparr>)
                  (place 0 0) \<lparr>width = Fin 800, height = Fin 600\<rparr> world0))
     = [Launch, NewPage, SetViewport (Fin 800) (Fin 600),
        Goto (Url ''https://www.google.com/maps/embed/v1/streetview''
                [(''key'', ''k''), (''location'', ''0,0''), (''heading'', ''0''),
                 (''pitch'', ''0''), (''fov'', ''90'')]),
        Sleep 1500, Screenshot, Close]
   \<and> (\<exists>probes.
         browser (snd (captureStreetViewWithBrowser exampleEnv (Fin 0) (Fin 0)
                        \<lparr>b_width = Fin 800, b_height = Fin 600, b_key = None, b_heading = None,
                         b_pitch = None, b_fov = None, useEmbed = None\<rparr> world0))
           = [Launch, NewPage, SetViewport (Fin 800) (Fin 600),
              Goto (Url ''https://www.google.com/maps/@''
                      [(''api'', ''1''), (''map_action'', ''pano''), (''viewpoint'', ''0,0'')]),
              Query (hd candidates)]
             @ probes @ [Sleep 1500, WaitForSelector ''canvas'', Screenshot, Close])"
proof -
  have page: "\<forall>u. launchError (chrome exampleEnv u) = None"
    "\<forall>u. newPageError (chrome exampleEnv u) = None"
    "\<forall>u. setViewportError (chrome exampleEnv u) = None"
    "\<forall>u. gotoError (chrome exampleEnv u) = None"
    by (simp_all add: exampleEnv_def examplePage_def)
  have off: "embedOn \<lparr>b_width = Fin 800, b_height = Fin 600, b_key = None, b_heading = None,
                     b_pitch = None, b_fov = None, useEmbed = None\<rparr>
             \<longrightarrow> keyGiven \<lparr>b_width = Fin 800, b_height = Fin 600, b_key = None,
                            b_heading = None, b_pitch = None, b_fov = None, useEmbed = None\<rparr>"
    by (simp add: embedOn_def)
  have digits_90: "digits 90 = ''90''"
    by code_simp
  have fmt: "fmtOther exampleEnv = exampleFormat"
    by (simp add: exampleEnv_def)
  show ?thesis
    using consent_follows_target [OF page off, of "Fin 0" "Fin 0" world0
        "exampleSettings\<lparr>opt_mode := Some ''browser''\<rparr>" "place 0 0"
        "\<lparr>width = Fin 800, height = Fin 600\<rparr>"] digits_90
    by (simp add: embedOn_def world0_def exampleSettings_def place_sel resolveAngle_def
        buildEmbedStreetViewUrl_def buildMapsPanoUrl_def angles_def location_0_0 digits_0
        numberToString_def fmt)
qed

section \<open>A run that meets a place without imagery\<close>

lemma shuffle_two: "shuffleIndices (\<lambda>k. 0) 2 = [Some 1, Some 0]"
  by (simp add: shuffleIndices_def upt_rec js_mul_def finish_def rd_def signed_zero_def
      arr_get_def arr_set_def numeral_2_eq_2)

lemma shuffle_one: "shuffleIndices r (Suc 0) = [Some 0]"
  by (simp add: shuffleIndices_def)

lemma loop_bad:
  "sampleLoop exampleEnv exampleSettings [place 0 0, place 1 1] [Some 1, Some 0] 0 [] world0
   = (Exit ''No Street View available: ZERO_RESULTS'',
      world0\<lparr>requests :=
               [Url ''https://maps.googleapis.com/maps/api/streetview/metadata''
                  [(''location'', ''1,1''), (''key'', ''k''), (''radius'', ''100''),
                   (''source'', ''outdoor'')]],
         stderr := [''No Street View available: ZERO_RESULTS''],
         visited := [1]\<rparr>)"
  by (simp add: js_ge_def element_def capture_bad world0_def)
     (simp add: exampleSettings_def)

lemma output_shot_1: "outputPathFor exampleEnv exampleSettings c 0 = ''/out/shot_1.jpg''"
  by (simp add: outputPathFor_def exampleEnv_def exampleSettings_def buildBaseName_def
      string_of_1)

lemma loop_good:
  "fst (sampleLoop exampleEnv exampleSettings [place 0 0] [Some 0] 0 [] world0)
     = Ok (1, [''/out/shot_1.jpg''])"
proof -
  obtain w1 where capture:
    "captureImage exampleEnv exampleSettings (place 0 0) \<lparr>width = Fin 1920, height = Fin 1080\<rparr>
       (world0\<lparr>visited := visited world0 @ [0]\<rparr>) = (Ok [1], w1)"
    using capture_good [of 0 0 "world0\<lparr>visited := visited world0 @ [0]\<rparr>"]
    by (auto simp add: location_0_0)
  have wanted: "opt_count exampleSettings = Fin 1"
    and written: "writeFile exampleEnv p b = None" for p b
    by (simp_all add: exampleSettings_def exampleEnv_def)
  show ?thesis
    by (simp add: js_ge_def element_def requested_default capture output_shot_1 wanted written
        Let_def)
qed

text \<open>
  C1. Two candidates and one image wanted, the candidate visited first at a place whose
  metadata status is \<^verbatim>\<open>ZERO_RESULTS\<close>: the run ends with exit code 1 and the message of
  that one candidate, after its metadata request and with the other candidate never taken
  up. The other candidate has imagery: alone, it gives the image wanted.
\<close>

theorem unavailable_imagery_ends_run:
  "main exampleEnv exampleSettings [place 0 0, place 1 1] world0
     = (Exit ''No Street View available: ZERO_RESULTS'',
        world0\<lparr>requests :=
                 [Url ''https://maps.googleapis.com/maps/api/streetview/metadata''
                    [(''location'', ''1,1''), (''key'', ''k''), (''radius'', ''100''),
                     (''source'', ''outdoor'')]],
               stderr := [''No Street View available: ZERO_RESULTS''],
               visited := [1]\<rparr>)
   \<and> fst (main exampleEnv exampleSettings [place 0 0] world0) = Ok [''/out/shot_1.jpg'']"
proof -
  have rnd: "mathRandom exampleEnv = (\<lambda>k. 0)" and dir: "mkdirError exampleEnv = None"
    and wanted: "opt_count exampleSettings = Fin 1"
    by (simp_all add: exampleEnv_def exampleSettings_def)
  have order:
    "shuffleIndices (mathRandom exampleEnv) (length [place 0 0, place 1 1]) = [Some 1, Some 0]"
    using shuffle_two by (simp add: rnd numeral_2_eq_2)
  have bad:
    "main exampleEnv exampleSettings [place 0 0, place 1 1] world0
       = (Exit ''No Street View available: ZERO_RESULTS'',
          world0\<lparr>requests :=
                   [Url ''https://maps.googleapis.com/maps/api/streetview/metadata''
                      [(''location'', ''1,1''), (''key'', ''k''), (''radius'', ''100''),
                       (''source'', ''outdoor'')]],
                 stderr := [''No Street View available: ZERO_RESULTS''],
                 visited := [1]\<rparr>)"
    unfolding main_def Let_def order dir loop_bad by simp
  have order1: "shuffleIndices (mathRandom exampleEnv) (length [place 0 0]) = [Some 0]"
    by (simp add: shuffle_one)
  obtain w1 where loop1:
    "sampleLoop exampleEnv exampleSettings [place 0 0] [Some 0] 0 [] world0
       = (Ok (1, [''/out/shot_1.jpg'']), w1)"
    using loop_good by (metis prod.collapse)
  have good: "fst (main exampleEnv exampleSettings [place 0 0] world0) = Ok [''/out/shot_1.jpg'']"
    unfolding main_def Let_def order1 dir loop1 by (simp add: wanted)
  show ?thesis
    using bad good by (rule conjI)
qed

theorem unavailable_imagery_ends_run_witness:
  "fst (main exampleEnv exampleSettings [place 0 0, place 1 1] world0)
     = Exit ''No Street View available: ZERO_RESULTS''"
  using unavailable_imagery_ends_run by simp

section \<open>The random index of the shuffle\<close>

text \<open>
  A product of a double in the unit interval and a count up to \<open>2^53\<close>, rounded, stays
  below the count: the draw \<^verbatim>\<open>Math.floor(Math.random() * (i + 1))\<close> is an index up to \<open>i\<close>.
\<close>

lemma round_even_nonneg: "0 \<le> r \<Longrightarrow> 0 \<le> round_even r"
  by (simp add: round_even_def Let_def)

lemma round_even_below:
  assumes "r < of_int m - 1 / 2"
  shows "round_even r \<le> m - 1"
proof -
  have f: "\<lfloor>r\<rfloor> \<le> m - 1"
    using assms by linarith
  show ?thesis
  proof (cases "\<lfloor>r\<rfloor> = m - 1")
    case True
    then have "r - of_int \<lfloor>r\<rfloor> < 1 / 2"
      using assms by simp
    then show ?thesis
      using True by (simp add: round_even_def Let_def)
  next
    case False
    then have "\<lfloor>r\<rfloor> + 1 \<le> m - 1"
      using f by linarith
    then show ?thesis
      by (simp add: round_even_def Let_def)
  qed
qed

lemma binade_bounds:
  assumes "0 < y"
  shows "- 1022 \<le> binade y"
    and "y < 2 powi (binade y + 1)"
    and "binade y \<noteq> - 1022 \<Longrightarrow> 2 powi binade y \<le> y"
proof -
  define k where "k = \<lfloor>log 2 y\<rfloor>"
  have "2 powr of_int k \<le> y \<and> y < 2 powr (of_int k + 1)"
    using floor_log_eq_powr_iff [of y 2 k] assms by (simp add: k_def)
  then have lo: "2 powi k \<le> y" and hi: "y < 2 powi (k + 1)"
    using powr_real_of_int' [of 2 k] powr_real_of_int' [of 2 "k + 1"] by simp_all
  have b: "binade y = max k (- 1022)"
    using assms by (simp add: binade_def k_def)
  show "- 1022 \<le> binade y"
    by (simp add: b)
  have "(2::real) powi (k + 1) \<le> 2 powi (binade y + 1)"
    by (rule power_int_increasing) (simp_all add: b)
  then show "y < 2 powi (binade y + 1)"
    using hi by linarith
  show "2 powi binade y \<le> y" if "binade y \<noteq> - 1022"
  proof -
    have "binade y = k" using that b by linarith
    then show ?thesis using lo by simp
  qed
qed

lemma rd_below:
  fixes n :: nat
  assumes "0 \<le> y" and "y \<le> real n * (1 - 1 / 2 ^ 53)" and "1 \<le> n" and "n \<le> 2 ^ 53"
  shows "0 \<le> rd y \<and> rd y < real n"
proof (cases "y = 0")
  case True
  then show ?thesis using assms(3) by (simp add: rd_def)
next
  case False
  then have pos: "0 < y" using assms(1) by simp
  define e where "e = binade y"
  define q :: real where "q = 2 powi (e - 52)"
  have q: "0 < q" by (simp add: q_def)
  have rd: "rd y = of_int (round_even (y / q)) * q"
    using False by (simp add: rd_def quantum_def q_def e_def)
  have yn: "y < real n"
  proof -
    have "real n * (1 - 1 / 2 ^ 53) < real n" using assms(3) by simp
    then show ?thesis using assms(2) by linarith
  qed
  have lo: "- 1022 \<le> e" and hi: "y < 2 powi (e + 1)"
    and norm: "e \<noteq> - 1022 \<Longrightarrow> 2 powi e \<le> y"
    using binade_bounds [OF pos] by (simp_all add: e_def)
  have e52: "e \<le> 52"
  proof (rule ccontr)
    assume "\<not> e \<le> 52"
    then have big: "53 \<le> e" by simp
    then have "(2::real) powi 53 \<le> 2 powi e"
      by (intro power_int_increasing) simp_all
    moreover have "2 powi e \<le> y" using norm big by simp
    moreover have "real n \<le> 2 ^ 53" using assms(4) by (metis of_nat_le_iff of_nat_numeral of_nat_power)
    ultimately show False using yn by simp
  qed
  define m :: int where "m = int n * 2 ^ nat (52 - e)"
  have m: "real n / q = of_int m"
  proof -
    have "1 / q = 2 powi (52 - e)"
      by (simp add: q_def power_int_diff)
    also have "\<dots> = 2 ^ nat (52 - e)"
      using e52 by (simp add: power_int_def)
    finally have inv: "1 / q = 2 ^ nat (52 - e)" .
    have "real n / q = real n * (1 / q)" by simp
    also have "\<dots> = real n * 2 ^ nat (52 - e)" by (simp only: inv)
    also have "\<dots> = of_int m" by (simp add: m_def)
    finally show ?thesis .
  qed
  have above: "2 powi e < real n"
  proof (cases "e = - 1022")
    case True
    have "(2::real) powi (- 1022) < 2 powi 0"
      by (intro power_int_strict_increasing) simp_all
    then have "(2::real) powi e < 1" using True by simp
    moreover have "1 \<le> real n" using assms(3) by simp
    ultimately show ?thesis by linarith
  next
    case False
    then show ?thesis using norm yn by linarith
  qed
  have half: "q / 2 < real n / 2 ^ 53"
  proof -
    have "q = 2 powi e / 2 ^ 52"
      by (simp add: q_def power_int_diff)
    then show ?thesis using above by simp
  qed
  have "y < real n - q / 2"
    using assms(2) half by (simp add: algebra_simps)
  then have "y / q < real n / q - 1 / 2"
    using q by (simp add: field_simps)
  then have "round_even (y / q) \<le> m - 1"
    using round_even_below [of "y / q" m] by (simp add: m)
  then have "of_int (round_even (y / q)) * q \<le> of_int (m - 1) * q"
    using q by (intro mult_right_mono) simp_all
  also have "\<dots> = real n - q"
    using m q by (simp add: field_simps)
  finally have up: "rd y < real n"
    using q by (simp add: rd)
  have "0 \<le> round_even (y / q)"
    using pos q by (intro round_even_nonneg) simp
  then have "0 \<le> rd y"
    using q by (simp add: rd)
  then show ?thesis using up by simp
qed

lemma random_index:
  assumes "0 \<le> r" and "r \<le> 1 - 1 / 2 ^ 53" and "i + 1 \<le> 2 ^ 53"
  shows "\<exists>j. arrayIndex (js_floor (js_mul (Fin r) (Fin (real (i + 1))))) = Some j \<and> j \<le> i"
proof -
  define y where "y = r * real (i + 1)"
  have "r * real (i + 1) \<le> (1 - 1 / 2 ^ 53) * real (i + 1)"
    using assms(2) by (intro mult_right_mono) simp_all
  then have "y \<le> real (i + 1) * (1 - 1 / 2 ^ 53)"
    by (simp only: y_def mult.commute)
  moreover have "0 \<le> y"
    using assms(1) by (simp add: y_def)
  ultimately have b: "0 \<le> rd y \<and> rd y < real (i + 1)"
    using rd_below [of y "i + 1"] assms(3) by simp
  have "real (i + 1) \<le> 2 ^ 53"
    using assms(3) by (metis of_nat_le_iff of_nat_numeral of_nat_power)
  moreover have "(2::real) ^ 53 \<le> 2 ^ 1024"
    by (rule power_increasing) simp_all
  ultimately have small: "\<bar>rd y\<bar> < 2 ^ 1024"
    using b by linarith
  have "js_mul (Fin r) (Fin (real (i + 1))) = Fin (rd y)"
    using assms(1) small
    by (auto simp add: js_mul_def finish_def Let_def signed_zero_def y_def)
  moreover have "nat \<lfloor>rd y\<rfloor> \<le> i"
    using b by (simp add: floor_less_iff nat_le_iff less_Suc_eq_le) linarith
  ultimately show ?thesis
    using b by simp
qed

lemma swap_map_Some:
  assumes "i < length xs" and "j < length xs"
  shows "arr_set (arr_set (map Some xs) i (arr_get (map Some xs) j)) j (arr_get (map Some xs) i)
           = map Some (xs[i := xs ! j, j := xs ! i])"
  using assms by (simp add: arr_set_def arr_get_def map_update)

lemma shuffleLoop_perm:
  assumes "\<forall>k. 0 \<le> random k \<and> random k \<le> 1 - 1 / 2 ^ 53"
    and "i \<le> length xs - 1" and "length xs \<le> 2 ^ 53"
  shows "\<exists>ys. shuffleLoop random k i (map Some xs) = map Some ys \<and> mset ys = mset xs"
  using assms(2,3)
proof (induction i arbitrary: k xs)
  case 0
  then show ?case by simp
next
  case (Suc i')
  have i: "Suc i' < length xs"
    using Suc.prems(1) by linarith
  obtain j where j: "arrayIndex (js_floor (js_mul (Fin (random k)) (Fin (real (Suc i' + 1))))) = Some j"
    and ji: "j \<le> Suc i'"
    using random_index [of "random k" "Suc i'"] assms(1) i Suc.prems(2) by auto
  define xs' where "xs' = xs[Suc i' := xs ! j, j := xs ! Suc i']"
  have step: "shuffleLoop random k (Suc i') (map Some xs) = shuffleLoop random (Suc k) i' (map Some xs')"
    using j i ji by (simp add: Let_def swap_map_Some xs'_def)
  have "mset xs' = mset xs"
    using mset_swap [of j xs "Suc i'"] i ji by (simp add: xs'_def)
  moreover have "\<exists>ys. shuffleLoop random (Suc k) i' (map Some xs') = map Some ys \<and> mset ys = mset xs'"
    using Suc.prems i by (intro Suc.IH) (simp_all add: xs'_def)
  ultimately show ?case
    using step by auto
qed

lemma shuffleIndices_perm:
  assumes "\<forall>k. 0 \<le> random k \<and> random k \<le> 1 - 1 / 2 ^ 53" and "len \<le> 2 ^ 53"
  shows "\<exists>p. shuffleIndices random len = map Some p \<and> mset p = mset [0..<len]"
  using shuffleLoop_perm [OF assms(1), of "len - 1" "[0..<len]" 0] assms(2)
  by (simp add: shuffleIndices_def)

section \<open>What a capture leaves untouched\<close>

lemma httpGet_trace:
  "httpGet e u w = (r, w1) \<Longrightarrow> visited w1 = visited w \<and> files w1 = files w"
  by (auto simp add: httpGet_def Let_def split: sum.splits)

lemma ensureMetadataAvailable_trace:
  "ensureMetadataAvailable e la lo params w = (r, w1)
     \<Longrightarrow> visited w1 = visited w \<and> files w1 = files w"
  by (auto simp add: ensureMetadataAvailable_def Let_def exitWithError_def
      split: prod.splits outcome.splits option.splits if_splits dest: httpGet_trace)

lemma createImageWithApi_trace:
  assumes "createImageWithApi e coords options w = (r, w1)"
  shows "visited w1 = visited w \<and> files w1 = files w"
proof -
  obtain r0 w0 where meta:
    "ensureMetadataAvailable e (lat coords) (lng coords)
       \<lparr>p_key = o_apiKey options, p_radius = Some (o_radius options),
        p_source = Some (o_source options), p_size = None, p_scale = None,
        p_heading = None, p_pitch = None, p_fov = None\<rparr> w = (r0, w0)"
    by (meson surj_pair)
  have w0: "visited w0 = visited w \<and> files w0 = files w"
    using ensureMetadataAvailable_trace [OF meta] .
  show ?thesis
    using assms w0
    by (auto simp add: createImageWithApi_def meta Let_def downloadImage_def getSharpOrThrow_def
        exitWithError_def
        split: prod.splits outcome.splits sum.splits if_splits dest!: httpGet_trace)
qed

lemma captureStreetViewWithBrowser_trace:
  "captureStreetViewWithBrowser e la lo params w = (r, w1)
     \<Longrightarrow> visited w1 = visited w \<and> files w1 = files w"
  by (auto simp add: captureStreetViewWithBrowser_def Let_def split: option.splits prod.splits)

lemma captureImage_trace:
  "captureImage e cfg coords requested w = (r, w1)
     \<Longrightarrow> visited w1 = visited w \<and> files w1 = files w"
  by (auto simp add: captureImage_def Let_def split: if_splits
      dest: createImageWithApi_trace captureStreetViewWithBrowser_trace)

lemma skipIndex_trace:
  "visited (skipIndex e cfg i m w) = visited w" "files (skipIndex e cfg i m w) = files w"
  by (simp_all add: skipIndex_def)

section \<open>The visiting order\<close>

lemma sampleLoop_visited:
  assumes "distinct (visited w @ map the (filter (\<lambda>x. x \<noteq> None) idxs))"
    and "sampleLoop e cfg allCoords idxs s outs w = (r, w')"
  shows "distinct (visited w')"
  using assms
proof (induction idxs arbitrary: s outs w)
  case Nil
  then show ?case by simp
next
  case (Cons idx rest)
  show ?case
  proof (cases "js_ge (Fin (real s)) (opt_count cfg)")
    case True
    then show ?thesis using Cons.prems by simp
  next
    case running: False
    show ?thesis
    proof (cases "case idx of None \<Rightarrow> None | Some i \<Rightarrow> element allCoords i")
      case None
      then have "sampleLoop e cfg allCoords rest s outs w = (r, w')"
        using Cons.prems(2) running by simp
      moreover have "distinct (visited w @ map the (filter (\<lambda>x. x \<noteq> None) rest))"
        using Cons.prems(1) by (cases idx) simp_all
      ultimately show ?thesis by (rule Cons.IH [rotated])
    next
      case (Some coords)
      then obtain i where idx: "idx = Some i"
        by (cases idx) simp_all
      obtain res w1 where capture:
        "captureImage e cfg coords (requestedSize e cfg coords) (w\<lparr>visited := visited w @ [i]\<rparr>)
           = (res, w1)"
        by (meson surj_pair)
      have w1: "visited w1 = visited w @ [i]"
        using captureImage_trace [OF capture] by simp
      have rest: "distinct (visited w1 @ map the (filter (\<lambda>x. x \<noteq> None) rest))"
        using Cons.prems(1) by (simp add: idx w1)
      have unfolded:
        "(case res of
            Ok img \<Rightarrow>
              (case writeFile e (outputPathFor e cfg coords s) img of
                 None \<Rightarrow>
                   sampleLoop e cfg allCoords rest (s + 1) (outs @ [outputPathFor e cfg coords s])
                     (w1\<lparr>files := files w1 @ [(outputPathFor e cfg coords s, img)]\<rparr>)
               | Some m \<Rightarrow> sampleLoop e cfg allCoords rest s outs (skipIndex e cfg i m w1))
          | Throw m \<Rightarrow> sampleLoop e cfg allCoords rest s outs (skipIndex e cfg i m w1)
          | Exit m \<Rightarrow> (Exit m, w1)) = (r, w')"
        using Cons.prems(2) running Some
        by (simp add: idx capture Let_def split: outcome.splits option.splits)
      show ?thesis
      proof (cases res)
        case (Exit m)
        then show ?thesis using unfolded rest by auto
      next
        case (Throw m)
        then have "sampleLoop e cfg allCoords rest s outs (skipIndex e cfg i m w1) = (r, w')"
          using unfolded by simp
        then show ?thesis
          using rest by (intro Cons.IH [of "skipIndex e cfg i m w1"]) (simp_all add: skipIndex_trace)
      next
        case (Ok img)
        show ?thesis
        proof (cases "writeFile e (outputPathFor e cfg coords s) img")
          case None
          then have "sampleLoop e cfg allCoords rest (s + 1) (outs @ [outputPathFor e cfg coords s])
                       (w1\<lparr>files := files w1 @ [(outputPathFor e cfg coords s, img)]\<rparr>) = (r, w')"
            using unfolded Ok by simp
          then show ?thesis
            using rest
            by (intro Cons.IH [of "w1\<lparr>files := files w1 @ [(outputPathFor e cfg coords s, img)]\<rparr>"])
              simp_all
        next
          case (Some m)
          then have "sampleLoop e cfg allCoords rest s outs (skipIndex e cfg i m w1) = (r, w')"
            using unfolded Ok by simp
          then show ?thesis
            using rest by (intro Cons.IH [of "skipIndex e cfg i m w1"]) (simp_all add: skipIndex_trace)
        qed
      qed
    qed
  qed
qed

lemma main_world:
  "main e cfg allCoords w = (r, w')
     \<Longrightarrow> w' = w \<or> (\<exists>r1 w1. sampleLoop e cfg allCoords
                             (shuffleIndices (mathRandom e) (length allCoords)) 0 [] w = (r1, w1)
                           \<and> visited w' = visited w1)
          \<or> visited w' = visited w"
  by (auto simp add: main_def Let_def exitWithError_def
      split: option.splits prod.splits outcome.splits if_splits)

lemma somes_map_Some: "map the (filter (\<lambda>x. x \<noteq> None) (map Some p)) = p"
  by (induction p) simp_all


text \<open>
  C6. With \<^verbatim>\<open>Math.random()\<close> in its range, at least 0 and at most the last double below 1,
  the shuffled array holds every index from 0 to N - 1 exactly once, and in a run no
  candidate index is taken up twice: the indices whose capture was started are distinct.
\<close>

theorem shuffle_visits_each_once:
  assumes "\<forall>k. 0 \<le> mathRandom e k \<and> mathRandom e k \<le> 1 - 1 / 2 ^ 53"
    and "length allCoords \<le> 2 ^ 53"
  shows "mset (shuffleIndices (mathRandom e) (length allCoords))
           = mset (map Some [0..<length allCoords])
         \<and> distinct (visited (snd (main e cfg allCoords world0)))"
proof -
  obtain p where p: "shuffleIndices (mathRandom e) (length allCoords) = map Some p"
    and perm: "mset p = mset [0..<length allCoords]"
    using shuffleIndices_perm [OF assms] by blast
  have "distinct p"
    using perm by (metis distinct_upt mset_eq_imp_distinct_iff)
  then have start: "distinct (visited world0 @ map the (filter (\<lambda>x. x \<noteq> None) (map Some p)))"
    by (simp add: somes_map_Some world0_def)
  obtain r w' where run: "main e cfg allCoords world0 = (r, w')"
    by (meson surj_pair)
  have "distinct (visited w')"
    using main_world [OF run] sampleLoop_visited [OF start]
    by (auto simp add: p world0_def)
  then show ?thesis
    by (simp add: p perm run)
qed


theorem shuffle_visits_each_once_witness:
  "mset (shuffleIndices (mathRandom exampleEnv) (length [place 0 0, place 1 1]))
     = mset (map Some [0..<length [place 0 0, place 1 1]])
   \<and> distinct (visited (snd (main exampleEnv exampleSettings [place 0 0, place 1 1] world0)))"
proof -
  have contract: "\<forall>k. 0 \<le> mathRandom exampleEnv k \<and> mathRandom exampleEnv k \<le> 1 - 1 / 2 ^ 53"
    by (simp add: exampleEnv_def)
  have len: "length [place 0 0, place 1 1] \<le> 2 ^ 53"
    by simp
  show ?thesis
    by (rule shuffle_visits_each_once [OF contract len])
qed


section \<open>A run in which every capture succeeds\<close>

lemma sampleLoop_all_ok:
  assumes ok: "\<forall>c \<in> set allCoords. \<forall>w. \<exists>img w1.
                 captureImage e cfg c (requestedSize e cfg c) w = (Ok img, w1)"
    and written: "\<forall>path buffer. writeFile e path buffer = None"
    and wanted: "opt_count cfg = Fin (real K)"
    and inside: "\<forall>i \<in> set idxs. i < length allCoords"
    and "s \<le> K"
    and n: "n = min (K - s) (length idxs)"
  shows "\<exists>w'. sampleLoop e cfg allCoords (map Some idxs) s outs w
                = (Ok (s + n,
                       outs @ map2 (\<lambda>j i. outputPathFor e cfg (allCoords ! i) j)
                                [s..<s + n] (take n idxs)), w')
              \<and> visited w' = visited w @ take n idxs
              \<and> map fst (files w')
                  = map fst (files w)
                    @ map2 (\<lambda>j i. outputPathFor e cfg (allCoords ! i) j) [s..<s + n] (take n idxs)"
  using inside \<open>s \<le> K\<close> n
proof (induction idxs arbitrary: s outs w n)
  case Nil
  then show ?case by simp
next
  case (Cons i rest)
  show ?case
  proof (cases "s = K")
    case True
    then show ?thesis
      using Cons.prems(3) by (simp add: wanted js_ge_def)
  next
    case False
    then have less: "s < K" using Cons.prems(2) by simp
    have i: "i < length allCoords" using Cons.prems(1) by simp
    define c where "c = allCoords ! i"
    define path where "path = outputPathFor e cfg c s"
    obtain img w1 where capture:
      "captureImage e cfg c (requestedSize e cfg c) (w\<lparr>visited := visited w @ [i]\<rparr>) = (Ok img, w1)"
      using ok i by (metis c_def nth_mem)
    have w1: "visited w1 = visited w @ [i]" "files w1 = files w"
      using captureImage_trace [OF capture] by simp_all
    define n' where "n' = min (K - (s + 1)) (length rest)"
    have nn: "n = Suc n'"
      using Cons.prems(3) less unfolding n'_def by (simp add: min_def) linarith
    have step:
      "sampleLoop e cfg allCoords (map Some (i # rest)) s outs w
         = sampleLoop e cfg allCoords (map Some rest) (s + 1) (outs @ [path])
             (w1\<lparr>files := files w1 @ [(path, img)]\<rparr>)"
      using less i capture written
      by (simp add: wanted js_ge_def element_def c_def [symmetric] Let_def path_def)
    obtain w' where run:
      "sampleLoop e cfg allCoords (map Some rest) (s + 1) (outs @ [path])
         (w1\<lparr>files := files w1 @ [(path, img)]\<rparr>)
       = (Ok (s + 1 + n',
              (outs @ [path]) @ map2 (\<lambda>j i. outputPathFor e cfg (allCoords ! i) j)
                                   [s + 1..<s + 1 + n'] (take n' rest)), w')"
      and v: "visited w' = visited (w1\<lparr>files := files w1 @ [(path, img)]\<rparr>) @ take n' rest"
      and f: "map fst (files w')
                = map fst (files (w1\<lparr>files := files w1 @ [(path, img)]\<rparr>))
                  @ map2 (\<lambda>j i. outputPathFor e cfg (allCoords ! i) j)
                      [s + 1..<s + 1 + n'] (take n' rest)"
      using Cons.IH [of "s + 1" n' "outs @ [path]" "w1\<lparr>files := files w1 @ [(path, img)]\<rparr>"]
        Cons.prems(1) less
      by (auto simp add: n'_def)
    have range: "[s..<s + n] = s # [s + 1..<s + 1 + n']"
      by (simp add: nn upt_conv_Cons)
    have names:
      "map2 (\<lambda>j i. outputPathFor e cfg (allCoords ! i) j) [s..<s + n] (take n (i # rest))
         = path # map2 (\<lambda>j i. outputPathFor e cfg (allCoords ! i) j)
                    [s + 1..<s + 1 + n'] (take n' rest)"
    proof -
      have "take n (i # rest) = i # take n' rest"
        by (simp add: nn)
      then show ?thesis
        by (simp only: range) (simp add: path_def c_def)
    qed
    show ?thesis
      unfolding step names using run v f by (simp add: w1 nn)
  qed
qed

text \<open>
  C7. When the target count K is at most the number of candidates and every capture and
  every write succeeds, the run ends with exactly K outputs after exactly K captures, and
  the outputs are in the order of the captures: output \<open>j\<close> is the file of the \<open>j\<close>-th
  candidate visited, named as success \<open>j + 1\<close>, and the files were written in that order.
\<close>

theorem all_succeed_gives_K:
  assumes contract: "\<forall>k. 0 \<le> mathRandom e k \<and> mathRandom e k \<le> 1 - 1 / 2 ^ 53"
    and len: "length allCoords \<le> 2 ^ 53"
    and K: "K \<le> length allCoords"
    and wanted: "opt_count cfg = Fin (real K)"
    and ok: "\<forall>c \<in> set allCoords. \<forall>w. \<exists>img w1.
               captureImage e cfg c (requestedSize e cfg c) w = (Ok img, w1)"
    and written: "\<forall>path buffer. writeFile e path buffer = None"
    and dir: "mkdirError e = None"
  shows "\<exists>outputs w'.
           main e cfg allCoords world0 = (Ok outputs, w')
           \<and> length outputs = K
           \<and> length (visited w') = K
           \<and> distinct (visited w')
           \<and> map fst (files w') = outputs
           \<and> (\<forall>j < K. outputs ! j = outputPathFor e cfg (allCoords ! (visited w' ! j)) j)"
proof -
  obtain p where p: "shuffleIndices (mathRandom e) (length allCoords) = map Some p"
    and perm: "mset p = mset [0..<length allCoords]"
    using shuffleIndices_perm [OF contract len] by blast
  have lp: "length p = length allCoords"
    using perm by (metis length_upt mset_eq_length minus_nat.diff_0)
  have "set p = {0..<length allCoords}"
    using perm by (metis mset_eq_setD set_upt)
  then have inside: "\<forall>i \<in> set p. i < length allCoords"
    by simp
  have dp: "distinct p"
    using perm by (metis distinct_upt mset_eq_imp_distinct_iff)
  define outputs where
    "outputs = map2 (\<lambda>j i. outputPathFor e cfg (allCoords ! i) j) [0..<0 + K] (take K p)"
  have n: "K = min (K - 0) (length p)"
    using K lp by simp
  obtain w1 where loop:
    "sampleLoop e cfg allCoords (map Some p) 0 [] world0 = (Ok (0 + K, [] @ outputs), w1)"
    and v: "visited w1 = visited world0 @ take K p"
    and f: "map fst (files w1) = map fst (files world0) @ outputs"
    using sampleLoop_all_ok [OF ok written wanted inside _ n, of "[]" world0]
    unfolding outputs_def by auto
  have run: "main e cfg allCoords world0 = (Ok outputs, w1\<lparr>stdout := stdout w1 @ outputs\<rparr>)"
    unfolding main_def Let_def p dir loop by (simp add: wanted)
  have lo: "length outputs = K"
    using K lp by (simp add: outputs_def)
  have nth: "outputs ! j = outputPathFor e cfg (allCoords ! (take K p ! j)) j" if "j < K" for j
    using that K lp by (simp add: outputs_def)
  have "distinct (take K p)"
    using dp by (rule distinct_take)
  then show ?thesis
    using run lo nth v f K lp by (simp add: world0_def)
qed

theorem all_succeed_gives_K_witness:
  "fst (main exampleEnv exampleSettings [place 0 0, place 0 1] world0) = Ok [''/out/shot_1.jpg'']"
proof -
  have contract: "\<forall>k. 0 \<le> mathRandom exampleEnv k \<and> mathRandom exampleEnv k \<le> 1 - 1 / 2 ^ 53"
    by (simp add: exampleEnv_def)
  have len: "length [place 0 0, place 0 1] \<le> 2 ^ 53" and K: "1 \<le> length [place 0 0, place 0 1]"
    by simp_all
  have wanted: "opt_count exampleSettings = Fin (real 1)"
    by (simp add: exampleSettings_def)
  have ok: "\<forall>c \<in> set [place 0 0, place 0 1]. \<forall>w. \<exists>img w1.
              captureImage exampleEnv exampleSettings c (requestedSize exampleEnv exampleSettings c) w
                = (Ok img, w1)"
    using capture_good [of 0 0] capture_good [of 0 1]
    by (simp add: requested_default location_0_0 location_0_1) blast
  have written: "\<forall>path buffer. writeFile exampleEnv path buffer = None"
    and dir: "mkdirError exampleEnv = None"
    by (simp_all add: exampleEnv_def)
  obtain outputs w' where run:
    "main exampleEnv exampleSettings [place 0 0, place 0 1] world0 = (Ok outputs, w')"
    and one: "length outputs = 1"
    and name: "\<forall>j < 1. outputs ! j
                 = outputPathFor exampleEnv exampleSettings
                     ([place 0 0, place 0 1] ! (visited w' ! j)) j"
    using all_succeed_gives_K [OF contract len K wanted ok written dir] by blast
  have "outputs ! 0 = ''/out/shot_1.jpg''"
    using name by (simp add: output_shot_1)
  then have "outputs = [''/out/shot_1.jpg'']"
    using one by (cases outputs) simp_all
  then show ?thesis
    by (simp add: run)
qed

section \<open>The logical size away from negative zero\<close>

text \<open>
  The error of a rounding is at most half a quantum, so a product that is at most 640.5
  before rounding is below 641 after it.
\<close>

lemma round_even_error: "\<bar>of_int (round_even r) - r\<bar> \<le> 1 / 2"
proof -
  have "r - of_int \<lfloor>r\<rfloor> < 1" "0 \<le> r - of_int \<lfloor>r\<rfloor>"
    by linarith+
  then show ?thesis
    by (auto simp add: round_even_def Let_def)
qed

lemma binade_abs: "binade \<bar>y\<bar> = binade y"
  by (simp add: binade_def)

lemma quantum_pos: "0 < quantum y"
  by (simp add: quantum_def)

lemma rd_error:
  "\<bar>rd y - y\<bar> \<le> quantum y / 2"
proof (cases "y = 0")
  case True
  then show ?thesis using quantum_pos [of y] by (simp add: rd_def)
next
  case False
  define q where "q = quantum y"
  have q: "0 < q" by (simp add: q_def quantum_pos)
  have "rd y - y = (of_int (round_even (y / q)) - y / q) * q"
    using False q by (simp add: rd_def q_def field_simps)
  then have "\<bar>rd y - y\<bar> = \<bar>of_int (round_even (y / q)) - y / q\<bar> * q"
    using q by (simp add: abs_mult)
  also have "\<dots> \<le> 1 / 2 * q"
    using round_even_error [of "y / q"] q by (intro mult_right_mono) simp_all
  finally show ?thesis by (simp add: q_def)
qed

lemma quantum_normal:
  assumes "2 powi (- 1021) \<le> \<bar>y\<bar>"
  shows "quantum y \<le> \<bar>y\<bar> / 2 ^ 52"
proof -
  have pos: "0 < \<bar>y\<bar>"
    using assms by (smt (verit) zero_less_power_int)
  have "binade y \<noteq> - 1022"
  proof
    assume "binade y = - 1022"
    then have "\<bar>y\<bar> < 2 powi (- 1021)"
      using binade_bounds(2) [OF pos] by (simp add: binade_abs)
    then show False using assms by simp
  qed
  then have "2 powi binade y \<le> \<bar>y\<bar>"
    using binade_bounds(3) [OF pos] by (simp add: binade_abs)
  moreover have "quantum y = 2 powi binade y / 2 ^ 52"
    by (simp add: quantum_def power_int_diff)
  ultimately show ?thesis
    by (simp add: divide_right_mono)
qed

lemma rd_relative:
  assumes "2 powi (- 1021) \<le> \<bar>y\<bar>"
  shows "\<bar>rd y - y\<bar> \<le> \<bar>y\<bar> / 2 ^ 53"
proof -
  have "\<bar>rd y - y\<bar> \<le> quantum y / 2"
    by (rule rd_error)
  also have "\<dots> \<le> (\<bar>y\<bar> / 2 ^ 52) / 2"
    using quantum_normal [OF assms] by simp
  finally show ?thesis by simp
qed

lemma rd_nonpos: "y \<le> 0 \<Longrightarrow> rd y \<le> 0"
proof -
  assume y: "y \<le> 0"
  have "y / quantum y \<le> 0"
    using y quantum_pos [of y] by (simp add: divide_nonpos_pos)
  then have "y / quantum y < of_int 1 - 1 / 2"
    by linarith
  then have "round_even (y / quantum y) \<le> 1 - 1"
    by (rule round_even_below)
  then show ?thesis
    using quantum_pos [of y] by (simp add: rd_def mult_nonpos_nonneg)
qed

lemma rd_small:
  assumes "y \<le> 1281 / 2"
  shows "rd y < 641"
proof (cases "y \<le> 0")
  case True
  then show ?thesis using rd_nonpos [of y] by simp
next
  case False
  then have pos: "0 < y" by simp
  have "binade y \<le> 9"
  proof (rule ccontr)
    assume "\<not> binade y \<le> 9"
    then have big: "10 \<le> binade y" by simp
    then have "(2::real) powi 10 \<le> 2 powi binade y"
      by (intro power_int_increasing) simp_all
    moreover have "2 powi binade y \<le> y"
      using binade_bounds(3) [OF pos] big by simp
    ultimately show False using assms by simp
  qed
  then have "quantum y \<le> 2 powi (- 1)"
    unfolding quantum_def by (intro power_int_increasing) simp_all
  then have "quantum y \<le> 1 / 2"
    by simp
  then show ?thesis
    using rd_error [of y] assms by linarith
qed

lemma rd_nonneg: "0 \<le> y \<Longrightarrow> 0 \<le> rd y"
  using quantum_pos [of y] round_even_nonneg [of "y / quantum y"]
  by (simp add: rd_def)

lemma ratio_of:
  fixes k :: int
  assumes "k \<noteq> 0" and "\<bar>real_of_int k\<bar> \<le> 2 ^ 1024"
  shows "js_div (Fin 640) (Fin (of_int k)) = Fin (rd (640 / of_int k))
         \<and> 0 < of_int k * rd (640 / of_int k)
         \<and> of_int k * rd (640 / of_int k) \<le> 1281 / 2"
proof -
  define x :: real where "x = of_int k"
  define y where "y = 640 / x"
  have x1: "1 \<le> \<bar>x\<bar>"
    using assms(1) by (simp add: x_def)
  have xb: "\<bar>x\<bar> \<le> 2 ^ 1024"
    using assms(2) by (simp add: x_def)
  have x0: "x \<noteq> 0" using x1 by auto
  have ay: "\<bar>y\<bar> = 640 / \<bar>x\<bar>"
    by (simp add: y_def)
  have "2 powi (- 1021) * \<bar>x\<bar> \<le> 2 powi (- 1021) * 2 ^ 1024"
    using xb by (intro mult_left_mono) simp_all
  also have "\<dots> = (8::real)"
    by (simp add: power_int_minus field_simps)
  finally have "2 powi (- 1021) * \<bar>x\<bar> \<le> 640"
    by simp
  then have normal: "2 powi (- 1021) \<le> \<bar>y\<bar>"
    using x1 by (simp add: ay pos_le_divide_eq)
  have err: "\<bar>rd y - y\<bar> \<le> \<bar>y\<bar> / 2 ^ 53"
    by (rule rd_relative [OF normal])
  have "x * rd y - 640 = x * (rd y - y)"
    using x0 by (simp add: y_def algebra_simps)
  then have "\<bar>x * rd y - 640\<bar> = \<bar>x\<bar> * \<bar>rd y - y\<bar>"
    by (simp add: abs_mult)
  also have "\<dots> \<le> \<bar>x\<bar> * (\<bar>y\<bar> / 2 ^ 53)"
    using err by (intro mult_left_mono) simp_all
  also have "\<dots> = 640 / 2 ^ 53"
    using x0 by (simp add: ay)
  finally have close: "\<bar>x * rd y - 640\<bar> \<le> 640 / 2 ^ 53" .
  have "(640::real) / 2 ^ 53 \<le> 1 / 2"
    by simp
  then have pos: "0 < x * rd y" and up: "x * rd y \<le> 1281 / 2"
    using close by linarith+
  have nz: "rd y \<noteq> 0"
    using pos by auto
  have "\<bar>y\<bar> \<le> 640"
    using x1 by (simp add: ay pos_divide_le_eq)
  then have "\<bar>rd y\<bar> \<le> 640 + 640 / 2 ^ 53"
    using err by (smt (verit) divide_right_mono zero_le_numeral zero_le_power)
  moreover have "(640::real) + 640 / 2 ^ 53 < 2 ^ 1024"
  proof -
    have "(2::real) ^ 11 \<le> 2 ^ 1024"
      by (rule power_increasing) simp_all
    then show ?thesis by simp
  qed
  ultimately have fits: "\<not> 2 ^ 1024 \<le> \<bar>rd y\<bar>"
    by linarith
  have "js_div (Fin 640) (Fin x) = Fin (rd y)"
    using x0 fits nz by (simp add: js_div_def finish_def Let_def y_def)
  then show ?thesis
    using pos up by (simp add: x_def y_def)
qed

lemma capped:
  assumes "b * r \<le> 1281 / 2"
  shows "\<exists>d::int. js_max (Fin 1) (js_floor (js_mul (Fin b) (Fin r))) = Fin (of_int d)
                  \<and> 1 \<le> d \<and> d \<le> 640"
proof -
  define v where "v = rd (b * r)"
  have v: "v < 641"
    unfolding v_def by (rule rd_small [OF assms])
  have mul: "js_mul (Fin b) (Fin r) = finish ((b < 0) \<noteq> (r < 0)) (b * r)"
    by (simp add: js_mul_def)
  consider (over) "2 ^ 1024 \<le> \<bar>v\<bar>" | (zero) "\<not> 2 ^ 1024 \<le> \<bar>v\<bar>" "v = 0"
    | (fin) "\<not> 2 ^ 1024 \<le> \<bar>v\<bar>" "v \<noteq> 0"
    by blast
  then show ?thesis
  proof cases
    case over
    have "(641::real) \<le> 2 ^ 1024"
    proof -
      have "(2::real) ^ 10 \<le> 2 ^ 1024"
        by (rule power_increasing) simp_all
      then show ?thesis by simp
    qed
    then have "v < 0"
      using over v by linarith
    then have "b * r < 0"
      using rd_nonneg [of "b * r"] by (fastforce simp add: v_def)
    then have "(b < 0) \<noteq> (r < 0)"
      by (auto simp add: mult_less_0_iff)
    then have "js_mul (Fin b) (Fin r) = NegInf"
      using over by (simp add: mul finish_def Let_def v_def [symmetric] signed_inf_def)
    then show ?thesis
      by (simp add: js_max_def)
  next
    case zero
    then have "js_mul (Fin b) (Fin r) = Fin 0 \<or> js_mul (Fin b) (Fin r) = NegZero"
      by (simp add: mul finish_def Let_def v_def [symmetric] signed_zero_def)
    then show ?thesis
      by (auto simp add: js_max_def)
  next
    case fin
    then have "js_mul (Fin b) (Fin r) = Fin v"
      by (simp add: mul finish_def Let_def v_def [symmetric])
    moreover have "\<lfloor>v\<rfloor> \<le> 640"
      using v by (simp add: floor_le_iff)
    ultimately show ?thesis
      by (auto simp add: js_max_def intro: exI [of _ "\<lfloor>v\<rfloor>"] exI [of _ 1])
  qed
qed

lemma plain:
  fixes k :: int
  assumes "k \<le> 640"
  shows "\<exists>d::int. js_max (Fin 1) (Fin (of_int k)) = Fin (of_int d) \<and> 1 \<le> d \<and> d \<le> 640"
  using assms by (auto simp add: js_max_def intro: exI [of _ k] exI [of _ 1])

lemma scaled_bound:
  assumes "scale = Fin 1 \<or> scale = Fin 2" and "js_div x scale = Fin a"
  shows "\<bar>a\<bar> < 2 ^ 1024"
proof (cases x)
  case (Fin v)
  then show ?thesis
    using assms
    by (auto simp add: js_div_def finish_def Let_def signed_zero_def signed_inf_def
        split: if_splits)
next
  case NegZero
  then show ?thesis
    using assms by (auto simp add: js_div_def finish_def Let_def signed_zero_def rd_def)
next
  case PosInf
  then show ?thesis
    using assms by (auto simp add: js_div_def signed_inf_def)
next
  case NegInf
  then show ?thesis
    using assms by (auto simp add: js_div_def signed_inf_def)
next
  case NaN
  then show ?thesis
    using assms by (auto simp add: js_div_def)
qed

lemma floor_bound:
  fixes a :: real
  assumes "\<bar>a\<bar> < 2 ^ 1024"
  shows "\<bar>real_of_int \<lfloor>a\<rfloor>\<bar> \<le> 2 ^ 1024"
proof -
  have "real_of_int \<lfloor>a\<rfloor> \<le> a"
    by simp
  moreover have "- (2 ^ 1024) \<le> real_of_int \<lfloor>a\<rfloor>"
  proof -
    have "real_of_int (- (2 ^ 1024)) \<le> a"
      using assms by simp
    then have "- (2 ^ 1024) \<le> \<lfloor>a\<rfloor>"
      by (simp only: le_floor_iff)
    then show ?thesis
      by (metis of_int_le_iff of_int_minus of_int_numeral of_int_power)
  qed
  ultimately show ?thesis
    using assms by linarith
qed

lemma ratio_bounds:
  fixes A B :: int
  assumes big: "640 < A \<or> 640 < B"
    and A: "\<bar>real_of_int A\<bar> \<le> 2 ^ 1024" and B: "\<bar>real_of_int B\<bar> \<le> 2 ^ 1024"
  shows "\<exists>r. js_min (js_div (Fin 640) (Fin (of_int A))) (js_div (Fin 640) (Fin (of_int B))) = Fin r
             \<and> of_int A * r \<le> 1281 / 2 \<and> of_int B * r \<le> 1281 / 2"
proof -
  consider (a0) "A = 0" | (b0) "A \<noteq> 0" "B = 0" | (both) "A \<noteq> 0" "B \<noteq> 0"
    by blast
  then show ?thesis
  proof cases
    case a0
    then have "B \<noteq> 0" using big by auto
    then have rb: "js_div (Fin 640) (Fin (of_int B)) = Fin (rd (640 / of_int B))"
      and ub: "of_int B * rd (640 / of_int B) \<le> 1281 / 2"
      using ratio_of [OF _ B] by simp_all
    have "js_div (Fin 640) (Fin (of_int A)) = PosInf"
      using a0 by (simp add: js_div_def signed_inf_def)
    then show ?thesis
      using rb ub a0 by (simp add: js_min_def)
  next
    case b0
    then have ra: "js_div (Fin 640) (Fin (of_int A)) = Fin (rd (640 / of_int A))"
      and ua: "of_int A * rd (640 / of_int A) \<le> 1281 / 2"
      using ratio_of [OF _ A] by simp_all
    have "js_div (Fin 640) (Fin (of_int B)) = PosInf"
      using b0 by (simp add: js_div_def signed_inf_def)
    then show ?thesis
      using ra ua b0 by (simp add: js_min_def)
  next
    case both
    define p where "p = rd (640 / real_of_int A)"
    define q where "q = rd (640 / real_of_int B)"
    have ra: "js_div (Fin 640) (Fin (of_int A)) = Fin p"
      and pa: "0 < of_int A * p" and ua: "of_int A * p \<le> 1281 / 2"
      using ratio_of [OF both(1) A] by (simp_all add: p_def)
    have rb: "js_div (Fin 640) (Fin (of_int B)) = Fin q"
      and pb: "0 < of_int B * q" and ub: "of_int B * q \<le> 1281 / 2"
      using ratio_of [OF both(2) B] by (simp_all add: q_def)
    have m: "js_min (Fin p) (Fin q) = Fin (min p q)"
      by (auto simp add: js_min_def min_def)
    have la: "of_int A * min p q \<le> 1281 / 2"
    proof (cases "0 < A")
      case True
      then have "of_int A * min p q \<le> of_int A * p"
        by (intro mult_left_mono) simp_all
      then show ?thesis using ua by linarith
    next
      case False
      then have neg: "real_of_int A < 0" using both(1) by simp
      then have "p < 0"
        using pa by (simp add: zero_less_mult_iff)
      moreover have "0 < q"
      proof -
        have "0 < real_of_int B" using big False by auto
        then show ?thesis using pb by (simp add: zero_less_mult_iff)
      qed
      ultimately have "min p q = p" by simp
      then show ?thesis using ua by simp
    qed
    have lb: "of_int B * min p q \<le> 1281 / 2"
    proof (cases "0 < B")
      case True
      then have "of_int B * min p q \<le> of_int B * q"
        by (intro mult_left_mono) simp_all
      then show ?thesis using ub by linarith
    next
      case False
      then have neg: "real_of_int B < 0" using both(2) by simp
      then have "q < 0"
        using pb by (simp add: zero_less_mult_iff)
      moreover have "0 < p"
      proof -
        have "0 < real_of_int A" using big False by auto
        then show ?thesis using pa by (simp add: zero_less_mult_iff)
      qed
      ultimately have "min p q = q" by simp
      then show ?thesis using ub by simp
    qed
    show ?thesis
      using la lb by (simp add: ra rb m)
  qed
qed


text \<open>
  Whenever the two scaled dimensions \<^verbatim>\<open>requested.width / scale\<close> and
  \<^verbatim>\<open>requested.height / scale\<close> are finite and not negative zero, the logical size is a
  pair of integers between 1 and 640: among the finite requested sizes, only a dimension
  whose quotient by the scale is negative zero leaves the range.
\<close>

lemma computeLogicalSize_in_range:
  assumes sc: "scale = Fin 1 \<or> scale = Fin 2"
    and wd: "js_div (width requested) scale = Fin a"
    and ht: "js_div (height requested) scale = Fin b"
  shows "\<exists>c d::int.
           computeLogicalSize requested scale (Fin 640)
             = \<lparr>width = Fin (of_int c), height = Fin (of_int d)\<rparr>
           \<and> 1 \<le> c \<and> c \<le> 640 \<and> 1 \<le> d \<and> d \<le> 640"
proof -
  define A where "A = \<lfloor>a\<rfloor>"
  define B where "B = \<lfloor>b\<rfloor>"
  have A: "\<bar>real_of_int A\<bar> \<le> 2 ^ 1024" and B: "\<bar>real_of_int B\<bar> \<le> 2 ^ 1024"
    using floor_bound scaled_bound [OF sc wd] scaled_bound [OF sc ht]
    by (simp_all add: A_def B_def)
  show ?thesis
  proof (cases "640 < A \<or> 640 < B")
    case False
    then obtain c d :: int
      where "js_max (Fin 1) (Fin (of_int A)) = Fin (of_int c)" "1 \<le> c" "c \<le> 640"
        and "js_max (Fin 1) (Fin (of_int B)) = Fin (of_int d)" "1 \<le> d" "d \<le> 640"
      using plain [of A] plain [of B] by auto
    then show ?thesis
      using False
      by (simp add: computeLogicalSize_def Let_def wd ht js_gt_def A_def [symmetric]
          B_def [symmetric])
  next
    case True
    then obtain r where ratio:
      "js_min (js_div (Fin 640) (Fin (of_int A))) (js_div (Fin 640) (Fin (of_int B))) = Fin r"
      and ra: "of_int A * r \<le> 1281 / 2" and rb: "of_int B * r \<le> 1281 / 2"
      using ratio_bounds [OF _ A B] by blast
    obtain c d :: int
      where "js_max (Fin 1) (js_floor (js_mul (Fin (of_int A)) (Fin r))) = Fin (of_int c)"
        "1 \<le> c" "c \<le> 640"
        and "js_max (Fin 1) (js_floor (js_mul (Fin (of_int B)) (Fin r))) = Fin (of_int d)"
        "1 \<le> d" "d \<le> 640"
      using capped [OF ra] capped [OF rb] by auto
    then show ?thesis
      using True
      by (simp add: computeLogicalSize_def Let_def wd ht js_gt_def A_def [symmetric]
          B_def [symmetric] ratio)
  qed
qed

text \<open>An odd width, whose half is not an integer: 1921 x 1080 at scale 2.\<close>

lemma computeLogicalSize_in_range_example:
  "\<exists>c d::int.
     computeLogicalSize \<lparr>width = Fin 1921, height = Fin 1080\<rparr> (Fin 2) (Fin 640)
       = \<lparr>width = Fin (of_int c), height = Fin (of_int d)\<rparr>
     \<and> 1 \<le> c \<and> c \<le> 640 \<and> 1 \<le> d \<and> d \<le> 640"
proof -
  have w: "js_div (Fin 1921) (Fin 2) = Fin (1921 / 2)"
    by (simp add: js_div_def finish_def rd_in_binade [of 9] round_even_def)
  have h: "js_div (Fin 1080) (Fin 2) = Fin 540"
    by (simp add: js_div_def finish_def rd_540)
  show ?thesis
    using computeLogicalSize_in_range
      [of "Fin 2" "\<lparr>width = Fin 1921, height = Fin 1080\<rparr>" "1921 / 2" 540]
    by (simp add: w h)
qed

section \<open>Thrown errors and the shortfall\<close>

text \<open>
  An error that is thrown in the \<^verbatim>\<open>try\<close> block of the loop (a transport error, a browser
  timeout, an image that cannot be decoded, a file that cannot be written) is caught:
  the loop goes on with the next index, the counter and the outputs as they were.
\<close>

lemma thrown_error_is_skipped:
  assumes "\<not> js_ge (Fin (real s)) (opt_count cfg)"
    and "element allCoords i = Some coords"
    and "captureImage e cfg coords (requestedSize e cfg coords) (w\<lparr>visited := visited w @ [i]\<rparr>)
           = (Throw m, w1)"
  shows "sampleLoop e cfg allCoords (Some i # rest) s outs w
           = sampleLoop e cfg allCoords rest s outs (skipIndex e cfg i m w1)"
  using assms by (simp add: Let_def)

text \<open>
  When the loop ends with fewer successes than wanted, the run ends with exit code 1 and
  one message that counts them.
\<close>

lemma shortfall_is_reported:
  assumes "mkdirError e = None"
    and "sampleLoop e cfg allCoords (shuffleIndices (mathRandom e) (length allCoords)) 0 [] w
           = (Ok (s, outs), w1)"
    and "js_lt (Fin (real s)) (opt_count cfg)"
  shows "main e cfg allCoords w
           = (Exit (shortfallMessage (fmtOther e) s (opt_count cfg)),
              w1\<lparr>stderr := stderr w1 @ [shortfallMessage (fmtOther e) s (opt_count cfg)]\<rparr>)"
  using assms by (simp add: main_def Let_def exitWithError_def)

end
